theory Spec2Isabelle
  imports Main "HOL-Library.Word" "HOL-Library.Sublist"
begin

section \<open>Strings of the script\<close>

text \<open>
  A JavaScript string is a sequence of UTF-16 code units: \<open>length\<close> counts code units,
  and a regular expression without the \<open>u\<close> flag matches code unit by code unit.
  Literals of the script are ASCII and are written through \<open>js\<close>.
\<close>

type_synonym code_unit = "16 word"
type_synonym jsstring = "code_unit list"

definition js :: "string \<Rightarrow> jsstring" where
  "js s = map of_char s"

text \<open>
  White space and line terminators of ECMAScript: what \<open>String.prototype.trim\<close> strips
  and what the class \<open>\s\<close> of a regular expression matches.
\<close>

definition is_ws :: "code_unit \<Rightarrow> bool" where
  "is_ws c =
     (c \<in> {0x9, 0xA, 0xB, 0xC, 0xD, 0x20, 0xA0, 0x1680, 0x2028, 0x2029, 0x202F, 0x205F,
            0x3000, 0xFEFF}
      \<or> (0x2000 \<le> c \<and> c \<le> 0x200A))"

definition trim :: "jsstring \<Rightarrow> jsstring" where
  "trim s = rev (dropWhile is_ws (rev (dropWhile is_ws s)))"

text \<open>\<open>Array.prototype.join\<close> on an array of strings.\<close>

fun join :: "jsstring \<Rightarrow> jsstring list \<Rightarrow> jsstring" where
  "join sep [] = []"
| "join sep [x] = x"
| "join sep (x # y # ys) = x @ sep @ join sep (y # ys)"

text \<open>Decimal digits of an array index, as a template literal prints it.\<close>

fun decimal :: "nat \<Rightarrow> jsstring" where
  "decimal n =
     (if n < 10 then [of_nat (48 + n)] else decimal (n div 10) @ [of_nat (48 + n mod 10)])"

declare decimal.simps [simp del]

section \<open>Regular expressions\<close>

text \<open>
  The script has one regular expression literal, anchored at both ends and without flags,
  used through \<open>test\<close>. Such a test succeeds exactly when the whole string is in the
  language of the expression, which a matcher by derivatives decides.
\<close>

datatype rx =
    Nothing
  | Eps
  | Cls "code_unit \<Rightarrow> bool"
  | Seq rx rx
  | Alt rx rx
  | Star rx

definition Many1 :: "rx \<Rightarrow> rx" where
  "Many1 r = Seq r (Star r)"

fun nullable :: "rx \<Rightarrow> bool" where
  "nullable Nothing = False"
| "nullable Eps = True"
| "nullable (Cls p) = False"
| "nullable (Seq r s) = (nullable r \<and> nullable s)"
| "nullable (Alt r s) = (nullable r \<or> nullable s)"
| "nullable (Star r) = True"

fun deriv :: "code_unit \<Rightarrow> rx \<Rightarrow> rx" where
  "deriv c Nothing = Nothing"
| "deriv c Eps = Nothing"
| "deriv c (Cls p) = (if p c then Eps else Nothing)"
| "deriv c (Seq r s) =
     (if nullable r then Alt (Seq (deriv c r) s) (deriv c s) else Seq (deriv c r) s)"
| "deriv c (Alt r s) = Alt (deriv c r) (deriv c s)"
| "deriv c (Star r) = Seq (deriv c r) (Star r)"

fun rx_test :: "rx \<Rightarrow> jsstring \<Rightarrow> bool" where
  "rx_test r [] = nullable r"
| "rx_test r (c # cs) = rx_test (deriv c r) cs"

text \<open>
  The language of an expression, the measure of the matcher: concatenation of two sets of
  strings, iteration of a set, and the set of strings an expression denotes.
\<close>

definition conc :: "jsstring set \<Rightarrow> jsstring set \<Rightarrow> jsstring set" where
  "conc A B = {u @ v | u v. u \<in> A \<and> v \<in> B}"

inductive_set star :: "jsstring set \<Rightarrow> jsstring set" for A :: "jsstring set" where
  star_empty: "[] \<in> star A"
| star_more: "u \<in> A \<Longrightarrow> v \<in> star A \<Longrightarrow> u @ v \<in> star A"

fun lang :: "rx \<Rightarrow> jsstring set" where
  "lang Nothing = {}"
| "lang Eps = {[]}"
| "lang (Cls p) = {[c] | c. p c}"
| "lang (Seq r s) = conc (lang r) (lang s)"
| "lang (Alt r s) = lang r \<union> lang s"
| "lang (Star r) = star (lang r)"

text \<open>The class \<open>[^\s@]\<close> and the literal \<open>/^[^\s@]+@[^\s@]+\.[^\s@]+$/\<close>.\<close>

definition not_space_at :: "code_unit \<Rightarrow> bool" where
  "not_space_at c = (\<not> is_ws c \<and> c \<noteq> 0x40)"

definition email_pattern :: rx where
  "email_pattern =
     Seq (Many1 (Cls not_space_at))
       (Seq (Cls (\<lambda>c. c = 0x40))
         (Seq (Many1 (Cls not_space_at))
           (Seq (Cls (\<lambda>c. c = 0x2E))
             (Many1 (Cls not_space_at)))))"

section \<open>The submitted fields\<close>

text \<open>
  \<open>new FormData(form).entries()\<close> is a list of name and value pairs in form order. The
  handler copies it into a plain object, trimming each value; a later entry of the same
  name replaces an earlier one. The object is modelled as a map from property names to
  strings. An assignment to the property \<open>__proto__\<close> of a plain object goes to the
  accessor inherited from \<open>Object.prototype\<close>, which ignores a value that is not an
  object: it creates no property.
\<close>

type_synonym fields = "jsstring \<rightharpoonup> jsstring"

definition assign_prop :: "fields \<Rightarrow> jsstring \<Rightarrow> jsstring \<Rightarrow> fields" where
  "assign_prop obj k v = (if k = js ''__proto__'' then obj else obj(k \<mapsto> v))"

fun collect_from :: "fields \<Rightarrow> (jsstring \<times> jsstring) list \<Rightarrow> fields" where
  "collect_from obj [] = obj"
| "collect_from obj ((k, v) # es) = collect_from (assign_prop obj k (trim v)) es"

definition collect :: "(jsstring \<times> jsstring) list \<Rightarrow> fields" where
  "collect es = collect_from Map.empty es"

text \<open>The value a form submits for a name: that of its last entry of that name.\<close>

definition submitted :: "(jsstring \<times> jsstring) list \<Rightarrow> jsstring \<rightharpoonup> jsstring" where
  "submitted es k = map_of (rev es) k"

section \<open>Validation\<close>

text \<open>
  A property read gives \<open>undefined\<close> (here \<open>None\<close>) or a string; \<open>!x\<close> holds of
  \<open>undefined\<close> and of the empty string.
\<close>

definition falsy :: "jsstring option \<Rightarrow> bool" where
  "falsy x = (case x of None \<Rightarrow> True | Some s \<Rightarrow> s = [])"

definition msg_name :: jsstring where
  "msg_name = js ''Nama wajib diisi.''"

definition msg_email :: jsstring where
  "msg_email = js ''Email tidak valid.''"

definition msg_phone :: jsstring where
  "msg_phone = js ''Nomor telepon tampak terlalu pendek.''"

definition msg_message :: jsstring where
  "msg_message = js ''Pesan minimal 10 karakter.''"

definition name_fails :: "fields \<Rightarrow> bool" where
  "name_fails obj = falsy (obj (js ''name''))"

definition email_fails :: "fields \<Rightarrow> bool" where
  "email_fails obj =
     (case obj (js ''email'') of None \<Rightarrow> True
      | Some e \<Rightarrow> e = [] \<or> \<not> rx_test email_pattern e)"

definition phone_fails :: "fields \<Rightarrow> bool" where
  "phone_fails obj =
     (case obj (js ''phone'') of None \<Rightarrow> True | Some p \<Rightarrow> p = [] \<or> length p < 6)"

definition message_fails :: "fields \<Rightarrow> bool" where
  "message_fails obj =
     (case obj (js ''message'') of None \<Rightarrow> True | Some m \<Rightarrow> m = [] \<or> length m < 10)"

definition validate :: "fields \<Rightarrow> jsstring list" where
  "validate obj =
     (let errors = [];
          errors = (if name_fails obj then errors @ [msg_name] else errors);
          errors = (if email_fails obj then errors @ [msg_email] else errors);
          errors = (if phone_fails obj then errors @ [msg_phone] else errors);
          errors = (if message_fails obj then errors @ [msg_message] else errors)
      in errors)"

section \<open>The form\<close>

text \<open>
  The form's \<open>input\<close> and \<open>textarea\<close> elements, in document order, are what the
  script names and what \<open>form.reset()\<close> resets. Of each the model keeps the name
  (empty when the attribute is missing), the current value, and the value that a reset of
  the control gives it.
\<close>

record element =
  el_name :: jsstring
  el_value :: jsstring
  el_default :: jsstring

definition names :: "jsstring list" where
  "names = [js ''name'', js ''email'', js ''phone'', js ''instagram'', js ''message'']"

text \<open>An array read: \<open>undefined\<close> (here \<open>None\<close>) outside the array.\<close>

definition array_at :: "'a list \<Rightarrow> nat \<Rightarrow> 'a option" where
  "array_at xs i = (if i < length xs then Some (xs ! i) else None)"

text \<open>The expression \<open>names[i] || `field${i}`\<close>.\<close>

definition name_for :: "nat \<Rightarrow> jsstring" where
  "name_for i =
     (if falsy (array_at names i) then js ''field'' @ decimal i
      else (case array_at names i of Some n \<Rightarrow> n | None \<Rightarrow> js ''field'' @ decimal i))"

definition name_input :: "nat \<Rightarrow> element \<Rightarrow> element" where
  "name_input i inp = (if el_name inp = [] then inp\<lparr>el_name := name_for i\<rparr> else inp)"

fun normalize_from :: "nat \<Rightarrow> element list \<Rightarrow> element list" where
  "normalize_from i [] = []"
| "normalize_from i (inp # inps) = name_input i inp # normalize_from (Suc i) inps"

definition normalize :: "element list \<Rightarrow> element list" where
  "normalize inputs = normalize_from 0 inputs"

text \<open>The reset algorithm of the form, on these elements.\<close>

definition reset :: "element list \<Rightarrow> element list" where
  "reset inputs = map (\<lambda>inp. inp\<lparr>el_value := el_default inp\<rparr>) inputs"

text \<open>The message area of the form, with the style properties the script sets.\<close>

record toast_el =
  display :: jsstring
  background :: jsstring
  color :: jsstring
  text_content :: jsstring

definition new_toast :: toast_el where
  "new_toast = \<lparr>display = js ''none'', background = [], color = [], text_content = []\<rparr>"

definition show_errors :: "jsstring list \<Rightarrow> toast_el \<Rightarrow> toast_el" where
  "show_errors errors t =
     t\<lparr>display := js ''block'', background := js ''#fff6f6'', color := js ''#8a1f1f'',
       text_content := js ''Gagal kirim: '' @ join (js '' '') errors\<rparr>"

definition msg_success :: jsstring where
  "msg_success =
     js ''Terima kasih! Pesanmu telah tersimpan. Tim kami akan menghubungi segera.''"

definition show_success :: "toast_el \<Rightarrow> toast_el" where
  "show_success t =
     t\<lparr>display := js ''block'', background := js ''#f0fff4'', color := js ''#0b6b2f'',
       text_content := msg_success\<rparr>"

section \<open>Time stamps\<close>

text \<open>
  \<open>new Date().toISOString()\<close>: the clock is read as milliseconds since the epoch, and
  printed in UTC as ECMAScript prescribes, with four digits for the years 0 to 9999 and a
  sign and six digits otherwise. The civil date is computed from the day number in the
  proleptic Gregorian calendar.
\<close>

definition pad :: "nat \<Rightarrow> int \<Rightarrow> jsstring" where
  "pad w n = replicate (w - length (decimal (nat n))) 0x30 @ decimal (nat n)"

definition civil_from_days :: "int \<Rightarrow> int \<times> int \<times> int" where
  "civil_from_days days =
     (let z = days + 719468;
          era = z div 146097;
          doe = z mod 146097;
          yoe = (doe - doe div 1460 + doe div 36524 - doe div 146096) div 365;
          doy = doe - (365 * yoe + yoe div 4 - yoe div 100);
          mp = (5 * doy + 2) div 153;
          d = doy - (153 * mp + 2) div 5 + 1;
          m = (if mp < 10 then mp + 3 else mp - 9);
          y = yoe + era * 400 + (if m \<le> 2 then 1 else 0)
      in (y, m, d))"

definition iso_year :: "int \<Rightarrow> jsstring" where
  "iso_year y =
     (if 0 \<le> y \<and> y \<le> 9999 then pad 4 y
      else (if y < 0 then js ''-'' else js ''+'') @ pad 6 \<bar>y\<bar>)"

definition to_iso_string :: "int \<Rightarrow> jsstring" where
  "to_iso_string t =
     (let ms = t mod 86400000;
          (y, m, d) = civil_from_days (t div 86400000)
      in iso_year y @ js ''-'' @ pad 2 m @ js ''-'' @ pad 2 d @ js ''T''
         @ pad 2 (ms div 3600000) @ js '':'' @ pad 2 (ms div 60000 mod 60) @ js '':''
         @ pad 2 (ms div 1000 mod 60) @ js ''.'' @ pad 3 (ms mod 1000) @ js ''Z'')"

section \<open>The stored submissions\<close>

text \<open>
  JSON values. A number stands by its canonical text; an object is a map from property
  names to values.
\<close>

datatype json =
    JNull
  | JBool bool
  | JNum jsstring
  | JStr jsstring
  | JArr "json list"
  | JObj "jsstring \<Rightarrow> json option"

text \<open>
  A string kept in \<open>localStorage\<close> is known by what \<open>JSON.parse\<close> makes of it: the
  empty string, a text that \<open>JSON.parse\<close> rejects, or the text of a JSON value, as
  \<open>JSON.stringify\<close> writes it and \<open>JSON.parse\<close> reads it back.
\<close>

datatype stored_text = Blank | Garbage | Encoded json

type_synonym storage = "jsstring \<rightharpoonup> stored_text"

datatype error =
  SecurityError | SyntaxError | TypeError | QuotaExceededError | InvalidStateError

text \<open>
  What the surroundings decide at one submission: the clock, whether touching
  \<open>localStorage\<close> throws (storage disabled), and whether \<open>setItem\<close> throws (quota).
\<close>

record env =
  now :: int
  storage_denied :: bool
  quota_exceeded :: bool

definition storage_key :: jsstring where
  "storage_key = js ''codlab_contacts_v1''"

definition get_item :: "env \<Rightarrow> storage \<Rightarrow> jsstring \<Rightarrow> error + stored_text option" where
  "get_item env st k = (if storage_denied env then Inl SecurityError else Inr (st k))"

definition set_item :: "env \<Rightarrow> storage \<Rightarrow> jsstring \<Rightarrow> stored_text \<Rightarrow> error + storage" where
  "set_item env st k v =
     (if storage_denied env then Inl SecurityError
      else if quota_exceeded env then Inl QuotaExceededError
      else Inr (st(k \<mapsto> v)))"

text \<open>\<open>x || '[]'\<close> for a \<open>getItem\<close> result: \<open>null\<close> and the empty string give \<open>'[]'\<close>.\<close>

definition or_empty_array :: "stored_text option \<Rightarrow> stored_text" where
  "or_empty_array x =
     (case x of None \<Rightarrow> Encoded (JArr []) | Some Blank \<Rightarrow> Encoded (JArr []) | Some t \<Rightarrow> t)"

definition json_parse :: "stored_text \<Rightarrow> error + json" where
  "json_parse t =
     (case t of Blank \<Rightarrow> Inl SyntaxError | Garbage \<Rightarrow> Inl SyntaxError | Encoded v \<Rightarrow> Inr v)"

definition json_stringify :: "json \<Rightarrow> stored_text" where
  "json_stringify v = Encoded v"

text \<open>\<open>all.push(entry)\<close>: only an array has a \<open>push\<close> to call.\<close>

definition push :: "json \<Rightarrow> json \<Rightarrow> error + json" where
  "push all entry = (case all of JArr xs \<Rightarrow> Inr (JArr (xs @ [entry])) | _ \<Rightarrow> Inl TypeError)"

text \<open>\<open>Object.assign({ submittedAt: ... }, obj)\<close>: the properties of \<open>obj\<close> win.\<close>

definition new_entry :: "env \<Rightarrow> fields \<Rightarrow> fields" where
  "new_entry env obj = [js ''submittedAt'' \<mapsto> to_iso_string (now env)] ++ obj"

definition to_json :: "fields \<Rightarrow> json" where
  "to_json entry = JObj (\<lambda>k. map_option JStr (entry k))"

text \<open>Reading the stored sequence: \<open>JSON.parse(localStorage.getItem(key) || '[]')\<close>.\<close>

definition load :: "env \<Rightarrow> storage \<Rightarrow> error + json" where
  "load env st =
     (case get_item env st storage_key of
        Inl err \<Rightarrow> Inl err
      | Inr item \<Rightarrow> json_parse (or_empty_array item))"

text \<open>The body of the \<open>try\<close> block, and the block with its \<open>catch\<close>.\<close>

definition try_save :: "env \<Rightarrow> fields \<Rightarrow> storage \<Rightarrow> error + storage" where
  "try_save env obj st =
     (case load env st of
        Inl err \<Rightarrow> Inl err
      | Inr all \<Rightarrow>
          (case push all (to_json (new_entry env obj)) of
             Inl err \<Rightarrow> Inl err
           | Inr all' \<Rightarrow> set_item env st storage_key (json_stringify all')))"

definition save :: "env \<Rightarrow> fields \<Rightarrow> storage \<Rightarrow> error + storage" where
  "save env obj st = (case try_save env obj st of Inl err \<Rightarrow> Inr st | Inr st' \<Rightarrow> Inr st')"

text \<open>Appending several records one by one, each under its own surroundings.\<close>

fun save_all :: "(env \<times> fields) list \<Rightarrow> storage \<Rightarrow> error + storage" where
  "save_all [] st = Inr st"
| "save_all ((env, obj) # rest) st =
     (case save env obj st of Inl err \<Rightarrow> Inl err | Inr st' \<Rightarrow> save_all rest st')"

text \<open>The stored sequence as a later reader finds it, and a property of a stored record.\<close>

definition stored_records :: "storage \<Rightarrow> json list option" where
  "stored_records st =
     (case or_empty_array (st storage_key) of Encoded (JArr xs) \<Rightarrow> Some xs | _ \<Rightarrow> None)"

definition get_prop :: "json \<Rightarrow> jsstring \<Rightarrow> json option" where
  "get_prop v k = (case v of JObj m \<Rightarrow> m k | _ \<Rightarrow> None)"

section \<open>The submit handler\<close>

text \<open>
  \<open>new FormData(form)\<close> is the platform's: it decides which controls are submitted
  (not a disabled one, not an unchecked box, not a button), in which order, and with which
  values. The handler is therefore given what the constructor does at this event: it
  throws (\<open>InvalidStateError\<close>, while the form is already constructing its entry list),
  or it yields the entry list, in which the value of an entry is a string or, for a file
  control, a \<open>File\<close>.
\<close>

datatype fd_value = FdString jsstring | FdFile

type_synonym entries = "(jsstring \<times> fd_value) list"

text \<open>
  The loop \<open>for (const [k,v] of fdata.entries()) obj[k] = v.trim()\<close>. A \<open>File\<close> has no
  \<open>trim\<close>: calling it throws a \<open>TypeError\<close>, which nothing catches.
\<close>

fun collect_entries :: "fields \<Rightarrow> entries \<Rightarrow> error + fields" where
  "collect_entries obj [] = Inr obj"
| "collect_entries obj ((k, FdString v) # es) = collect_entries (assign_prop obj k (trim v)) es"
| "collect_entries obj ((k, FdFile) # es) = Inl TypeError"

record event =
  default_prevented :: bool

text \<open>
  The page, as far as the handler touches it. A form element exposes its controls as
  properties under their names and ids, and these come before the methods it inherits:
  \<open>form_named\<close> lists the property names of the form that give a control. Under such a
  name \<open>form.reset\<close> or \<open>form.appendChild\<close> is an element, and calling it throws a
  \<open>TypeError\<close>.
\<close>

record page =
  inputs :: "element list"
  form_named :: "jsstring list"
  toast :: toast_el
  storage :: storage
  sparkle_count :: nat

definition prevent_default :: "event \<Rightarrow> event" where
  "prevent_default e = e\<lparr>default_prevented := True\<rparr>"

text \<open>\<open>form.reset()\<close>.\<close>

definition form_reset :: "page \<Rightarrow> error + page" where
  "form_reset pg =
     (if js ''reset'' \<in> set (form_named pg) then Inl TypeError
      else Inr (pg\<lparr>inputs := reset (inputs pg)\<rparr>))"

text \<open>
  \<open>sparkles(form)\<close>: its first access to the form is \<open>container.appendChild(c)\<close>; the
  decoration itself is counted, not drawn.
\<close>

definition sparkles :: "page \<Rightarrow> error + page" where
  "sparkles pg =
     (if js ''appendChild'' \<in> set (form_named pg) then Inl TypeError
      else Inr (pg\<lparr>sparkle_count := Suc (sparkle_count pg)\<rparr>))"

text \<open>
  The listener of the \<open>submit\<close> event. Its result is the exception that leaves it, if
  any, with the event and the page as they are at that moment.
\<close>

definition submit ::
  "env \<Rightarrow> error + entries \<Rightarrow> event \<Rightarrow> page \<Rightarrow> error option \<times> event \<times> page" where
  "submit env fdata e pg =
     (let e = prevent_default e
      in case fdata of
           Inl err \<Rightarrow> (Some err, e, pg)
         | Inr es \<Rightarrow>
             (case collect_entries Map.empty es of
                Inl err \<Rightarrow> (Some err, e, pg)
              | Inr obj \<Rightarrow>
                  (let errors = validate obj
                   in if errors \<noteq> [] then
                        (None, e, pg\<lparr>toast := show_errors errors (toast pg)\<rparr>)
                      else
                        (case save env obj (storage pg) of
                           Inl err \<Rightarrow> (Some err, e, pg)
                         | Inr st \<Rightarrow>
                             (let pg = pg\<lparr>storage := st, toast := show_success (toast pg)\<rparr>
                              in case form_reset pg of
                                   Inl err \<Rightarrow> (Some err, e, pg)
                                 | Inr pg \<Rightarrow>
                                     (case sparkles pg of
                                        Inl err \<Rightarrow> (Some err, e, pg)
                                      | Inr pg \<Rightarrow> (None, e, pg)))))))"

section \<open>Vocabulary of the properties\<close>

text \<open>\<open>precedes a b xs\<close>: \<open>b\<close> occurs in \<open>xs\<close> after the first \<open>a\<close>.\<close>

definition precedes :: "'a \<Rightarrow> 'a \<Rightarrow> 'a list \<Rightarrow> bool" where
  "precedes a b xs = (b \<in> set (drop 1 (dropWhile (\<lambda>x. x \<noteq> a) xs)))"

text \<open>The messages in the order of the checks: name, email, phone, message.\<close>

definition check_order :: "jsstring list" where
  "check_order = [msg_name, msg_email, msg_phone, msg_message]"

text \<open>No storage operation of this submission throws.\<close>

definition storage_works :: "env \<Rightarrow> bool" where
  "storage_works env = (\<not> storage_denied env \<and> \<not> quota_exceeded env)"

text \<open>
  Two submissions to try the validator on: one that every check accepts, with an
  \<open>instagram\<close> entry, and one that every check rejects.
\<close>

definition scenario_a :: "(jsstring \<times> jsstring) list" where
  "scenario_a =
     [(js ''name'', js ''Ana''), (js ''email'', js ''ana@mail.com''),
      (js ''phone'', js ''08123456''), (js ''instagram'', js '' @ana ''),
      (js ''message'', js ''Hello, I am interested in the course.'')]"

definition scenario_b :: "(jsstring \<times> jsstring) list" where
  "scenario_b =
     [(js ''name'', js ''''), (js ''email'', js ''bad''), (js ''phone'', js ''1''),
      (js ''message'', js ''short'')]"

text \<open>
  The records that the appends of a list of steps leave in a readable store: one for each
  step whose storage operations do not throw.
\<close>

definition appended :: "(env \<times> fields) list \<Rightarrow> json list" where
  "appended steps =
     map (\<lambda>(env, obj). to_json (new_entry env obj)) (filter (\<lambda>(env, obj). storage_works env) steps)"

text \<open>
  The order of \<open><\<close> on strings: lexicographic on code units.
\<close>

definition js_less :: "jsstring \<Rightarrow> jsstring \<Rightarrow> bool" where
  "js_less a b = ((a, b) \<in> lexord {(x, y). x < y})"

text \<open>
  Surroundings for the examples: a working store at two successive clock readings, and a
  store that is full.
\<close>

definition env_ok :: env where
  "env_ok = \<lparr>now = 1700000000000, storage_denied = False, quota_exceeded = False\<rparr>"

definition env_early :: env where
  "env_early = \<lparr>now = 1699999999999, storage_denied = False, quota_exceeded = False\<rparr>"

definition env_later :: env where
  "env_later = \<lparr>now = 1700000000001, storage_denied = False, quota_exceeded = False\<rparr>"

definition env_full :: env where
  "env_full = \<lparr>now = 1700000000000, storage_denied = False, quota_exceeded = True\<rparr>"

text \<open>An entry list of strings, as \<open>FormData\<close> hands it over.\<close>

definition strings :: "(jsstring \<times> jsstring) list \<Rightarrow> entries" where
  "strings es = map (\<lambda>(k, v). (k, FdString v)) es"

text \<open>The accepted submission with a file control added.\<close>

definition with_file :: entries where
  "with_file = strings scenario_a @ [(js ''cv'', FdFile)]"

text \<open>
  Forms for the examples: a form filled with given names and values, on a page with the
  given store, where the form shows controls under the given property names; the accepted
  submission with one more field, named \<open>submittedAt\<close> or \<open>__proto__\<close>.
\<close>

definition filled :: "(jsstring \<times> jsstring) list \<Rightarrow> element list" where
  "filled es = map (\<lambda>(k, v). \<lparr>el_name = k, el_value = v, el_default = []\<rparr>) es"

definition page_of :: "(jsstring \<times> jsstring) list \<Rightarrow> jsstring list \<Rightarrow> storage \<Rightarrow> page" where
  "page_of es shown st =
     \<lparr>inputs = filled es, form_named = shown, toast = new_toast, storage = st,
      sparkle_count = 0\<rparr>"

definition event0 :: event where
  "event0 = \<lparr>default_prevented = False\<rparr>"

definition own_stamp :: "(jsstring \<times> jsstring) list" where
  "own_stamp = scenario_a @ [(js ''submittedAt'', js '' x '')]"

definition future_stamp :: "(jsstring \<times> jsstring) list" where
  "future_stamp = scenario_a @ [(js ''submittedAt'', js ''2999-01-01T00:00:00.000Z'')]"

definition proto_field :: "(jsstring \<times> jsstring) list" where
  "proto_field = scenario_a @ [(js ''__proto__'', js ''x'')]"

text \<open>
  The form of the first submission with no name on any control and a sixth control, after
  the normalizer has run, on a page with an empty store.
\<close>

definition unnamed_form :: "element list" where
  "unnamed_form =
     [\<lparr>el_name = [], el_value = js ''Ana'', el_default = []\<rparr>,
      \<lparr>el_name = [], el_value = js ''ana@mail.com'', el_default = []\<rparr>,
      \<lparr>el_name = [], el_value = js ''08123456'', el_default = []\<rparr>,
      \<lparr>el_name = [], el_value = js '' @ana '', el_default = []\<rparr>,
      \<lparr>el_name = [], el_value = js ''Hello, I am interested in the course.'', el_default = []\<rparr>,
      \<lparr>el_name = [], el_value = js ''more'', el_default = []\<rparr>]"

definition unnamed_page :: page where
  "unnamed_page =
     \<lparr>inputs = normalize unnamed_form, form_named = [], toast = new_toast,
      storage = Map.empty, sparkle_count = 0\<rparr>"

text \<open>A form of six controls of which only the second has a name.\<close>

definition mostly_unnamed :: "element list" where
  "mostly_unnamed =
     [\<lparr>el_name = [], el_value = js ''Ana'', el_default = []\<rparr>,
      \<lparr>el_name = js ''mail'', el_value = [], el_default = []\<rparr>,
      \<lparr>el_name = [], el_value = [], el_default = []\<rparr>,
      \<lparr>el_name = [], el_value = [], el_default = []\<rparr>,
      \<lparr>el_name = [], el_value = [], el_default = []\<rparr>,
      \<lparr>el_name = [], el_value = [], el_default = []\<rparr>]"

section \<open>Facts about strings and the collected fields\<close>

lemma of_char_word_inj: "(of_char a :: 16 word) = of_char b \<Longrightarrow> a = b"
proof -
  assume eq: "(of_char a :: 16 word) = of_char b"
  have lt: "\<And>c :: char. (of_char c :: nat) < 2 ^ 16"
  proof -
    fix c :: char
    have "(of_char c :: nat) < 256" by (rule nat_of_char_less_256)
    also have "(256 :: nat) < 2 ^ 16" by simp
    finally show "(of_char c :: nat) < 2 ^ 16" .
  qed
  have "unat (of_nat (of_char a) :: 16 word) = unat (of_nat (of_char b) :: 16 word)"
    using eq by (simp add: of_nat_of_char)
  then have "(of_char a :: nat) = of_char b"
    using lt[of a] lt[of b] by (simp add: unat_of_nat take_bit_nat_eq_self)
  then show "a = b" by simp
qed

lemma js_eq_iff [simp]: "(js a = js b) = (a = b)"
proof -
  have "inj (of_char :: char \<Rightarrow> 16 word)"
    by (rule injI) (rule of_char_word_inj)
  then show ?thesis by (simp add: js_def inj_map_eq_map)
qed

lemma collect_from_lookup:
  "collect_from obj es k =
     (if k = js ''__proto__'' then obj k
      else (case submitted es k of None \<Rightarrow> obj k | Some v \<Rightarrow> Some (trim v)))"
proof (induction es arbitrary: obj)
  case Nil
  then show ?case by (simp add: submitted_def)
next
  case (Cons e es)
  obtain k' v' where e: "e = (k', v')" by (cases e)
  show ?case
    unfolding e collect_from.simps Cons.IH
    by (auto simp: submitted_def assign_prop_def map_add_def split: option.splits)
qed

lemma collect_lookup:
  "collect es k =
     (if k = js ''__proto__'' then None else map_option trim (submitted es k))"
  by (simp add: collect_def collect_from_lookup split: option.splits)

section \<open>The matcher decides the language\<close>

lemma nullable_lang: "nullable r \<longleftrightarrow> [] \<in> lang r"
  by (induction r) (auto simp: conc_def intro: star_empty)

lemma cons_in_conc:
  "c # w \<in> conc A B \<longleftrightarrow>
     ([] \<in> A \<and> c # w \<in> B) \<or> (\<exists>u v. w = u @ v \<and> c # u \<in> A \<and> v \<in> B)"
  by (auto simp: conc_def append_eq_Cons_conv Cons_eq_append_conv)

lemma star_split:
  assumes "x \<in> star A" and "x = c # w"
  shows "\<exists>u v. w = u @ v \<and> c # u \<in> A \<and> v \<in> star A"
  using assms
proof (induction arbitrary: w)
  case star_empty
  then show ?case by simp
next
  case (star_more u v)
  show ?case
  proof (cases u)
    case Nil
    with star_more show ?thesis by simp
  next
    case (Cons d u')
    with star_more.prems have "d = c" "w = u' @ v" by simp_all
    with Cons star_more.hyps show ?thesis by blast
  qed
qed

lemma cons_in_star:
  "c # w \<in> star A \<longleftrightarrow> (\<exists>u v. w = u @ v \<and> c # u \<in> A \<and> v \<in> star A)"
proof
  assume "c # w \<in> star A"
  then show "\<exists>u v. w = u @ v \<and> c # u \<in> A \<and> v \<in> star A"
    by (rule star_split) simp
next
  assume "\<exists>u v. w = u @ v \<and> c # u \<in> A \<and> v \<in> star A"
  then obtain u v where "w = u @ v" "c # u \<in> A" "v \<in> star A" by blast
  then show "c # w \<in> star A"
    using star_more [of "c # u" A v] by simp
qed

lemma deriv_lang: "w \<in> lang (deriv c r) \<longleftrightarrow> c # w \<in> lang r"
proof (induction r arbitrary: w)
  case (Seq r s)
  then show ?case
    by (auto simp: cons_in_conc nullable_lang) (auto simp: conc_def)
next
  case (Star r)
  then show ?case
    by (auto simp: cons_in_star) (auto simp: conc_def)
qed auto

lemma rx_test_lang: "rx_test r w \<longleftrightarrow> w \<in> lang r"
  by (induction w arbitrary: r) (simp_all add: nullable_lang deriv_lang)

lemma star_of_class: "star {[c] | c. p c} = {w. \<forall>c \<in> set w. p c}"
proof (intro set_eqI iffI)
  fix w assume "w \<in> star {[c] | c. p c}"
  then show "w \<in> {w. \<forall>c \<in> set w. p c}"
    by induction auto
next
  fix w assume "w \<in> {w. \<forall>c \<in> set w. p c}"
  then show "w \<in> star {[c] | c. p c}"
  proof (induction w)
    case Nil
    show ?case by (rule star_empty)
  next
    case (Cons c w)
    then have "[c] \<in> {[c] | c. p c}" "w \<in> star {[c] | c. p c}" by auto
    from star_more [OF this] show ?case by simp
  qed
qed

lemma lang_many1_class: "lang (Many1 (Cls p)) = {w. w \<noteq> [] \<and> (\<forall>c \<in> set w. p c)}"
proof -
  have "lang (Many1 (Cls p)) = conc {[c] | c. p c} {w. \<forall>c \<in> set w. p c}"
    by (simp add: Many1_def star_of_class)
  also have "\<dots> = {w. w \<noteq> [] \<and> (\<forall>c \<in> set w. p c)}"
  proof (intro set_eqI iffI)
    fix w assume "w \<in> conc {[c] | c. p c} {w. \<forall>c \<in> set w. p c}"
    then show "w \<in> {w. w \<noteq> [] \<and> (\<forall>c \<in> set w. p c)}"
      by (auto simp: conc_def)
  next
    fix w assume "w \<in> {w. w \<noteq> [] \<and> (\<forall>c \<in> set w. p c)}"
    then obtain c w' where "w = [c] @ w'" "p c" "\<forall>c \<in> set w'. p c"
      by (cases w) auto
    then show "w \<in> conc {[c] | c. p c} {w. \<forall>c \<in> set w. p c}"
      unfolding conc_def by blast
  qed
  finally show ?thesis .
qed

lemma concI: "u \<in> A \<Longrightarrow> v \<in> B \<Longrightarrow> u @ v \<in> conc A B"
  by (auto simp: conc_def)

lemma concE:
  assumes "w \<in> conc A B"
  obtains u v where "w = u @ v" "u \<in> A" "v \<in> B"
  using assms by (auto simp: conc_def)

text \<open>
  What the email pattern accepts: a non-empty local part, \<open>@\<close>, and a domain with a dot
  that has something on both sides, with no white space and no further \<open>@\<close> anywhere.
\<close>

lemma email_pattern_meaning:
  "rx_test email_pattern s \<longleftrightarrow>
     (\<exists>a b c. s = a @ [0x40] @ b @ [0x2E] @ c
        \<and> a \<noteq> [] \<and> b \<noteq> [] \<and> c \<noteq> []
        \<and> (\<forall>x \<in> set (a @ b @ c). \<not> is_ws x \<and> x \<noteq> 0x40))"
proof -
  let ?W = "{w. w \<noteq> [] \<and> (\<forall>c \<in> set w. not_space_at c)}"
  let ?L = "conc ?W (conc {[0x40]} (conc ?W (conc {[0x2E]} ?W)))"
  have l: "lang email_pattern = ?L"
    by (simp add: email_pattern_def lang_many1_class del: lang.simps(4))
      (simp add: lang_many1_class)
  have "s \<in> ?L \<longleftrightarrow>
     (\<exists>a b c. s = a @ [0x40] @ b @ [0x2E] @ c \<and> a \<in> ?W \<and> b \<in> ?W \<and> c \<in> ?W)"
  proof
    assume "s \<in> ?L"
    then obtain a t1 where 1: "s = a @ t1" "a \<in> ?W"
      "t1 \<in> conc {[0x40]} (conc ?W (conc {[0x2E]} ?W))"
      by (rule concE)
    from 1(3) obtain t2 where 2: "t1 = [0x40] @ t2" "t2 \<in> conc ?W (conc {[0x2E]} ?W)"
      by (rule concE) simp
    from 2(2) obtain b t3 where 3: "t2 = b @ t3" "b \<in> ?W" "t3 \<in> conc {[0x2E]} ?W"
      by (rule concE)
    from 3(3) obtain c where 4: "t3 = [0x2E] @ c" "c \<in> ?W"
      by (rule concE) simp
    from 1(1) 2(1) 3(1) 4(1) have "s = a @ [0x40] @ b @ [0x2E] @ c" by simp
    with 1(2) 3(2) 4(2)
    show "\<exists>a b c. s = a @ [0x40] @ b @ [0x2E] @ c \<and> a \<in> ?W \<and> b \<in> ?W \<and> c \<in> ?W"
      by - (rule exI [of _ a], rule exI [of _ b], rule exI [of _ c], intro conjI, assumption+)
  next
    assume "\<exists>a b c. s = a @ [0x40] @ b @ [0x2E] @ c \<and> a \<in> ?W \<and> b \<in> ?W \<and> c \<in> ?W"
    then obtain a b c where sm: "s = a @ [0x40] @ b @ [0x2E] @ c \<and> a \<in> ?W \<and> b \<in> ?W \<and> c \<in> ?W"
      by (elim exE) (rule that)
    note s = sm [THEN conjunct1]
      and m = sm [THEN conjunct2, THEN conjunct1] sm [THEN conjunct2, THEN conjunct2, THEN conjunct1]
        sm [THEN conjunct2, THEN conjunct2, THEN conjunct2]
    have d: "[0x2E] \<in> {[0x2E :: code_unit]}" and e: "[0x40] \<in> {[0x40 :: code_unit]}"
      by simp_all
    note concI [OF m(1) concI [OF e concI [OF m(2) concI [OF d m(3)]]]]
    then have "a @ [0x40] @ b @ [0x2E] @ c \<in> ?L" .
    with s show "s \<in> ?L" by simp
  qed
  moreover have "a \<in> ?W \<and> b \<in> ?W \<and> c \<in> ?W \<longleftrightarrow>
      a \<noteq> [] \<and> b \<noteq> [] \<and> c \<noteq> [] \<and> (\<forall>x \<in> set (a @ b @ c). \<not> is_ws x \<and> x \<noteq> 0x40)"
    for a b c :: jsstring
    by (auto simp: not_space_at_def)
  ultimately show ?thesis
    unfolding rx_test_lang l by simp
qed

section \<open>The validator\<close>

text \<open>
  Claim C1. When the submitted name is not empty after trimming, the trimmed email matches
  the pattern, the trimmed phone has at least 6 code units and the trimmed message at
  least 10, the validator returns the empty list. The validator never reads the
  \<open>instagram\<close> property: changing or removing it changes no result.
\<close>

theorem validate_accepts:
  assumes "submitted es (js ''name'') = Some n" and "trim n \<noteq> []"
    and "submitted es (js ''email'') = Some e" and "rx_test email_pattern (trim e)"
    and "submitted es (js ''phone'') = Some p" and "6 \<le> length (trim p)"
    and "submitted es (js ''message'') = Some m" and "10 \<le> length (trim m)"
  shows "validate (collect es) = []
    \<and> (\<forall>obj x. validate (obj(js ''instagram'' := x)) = validate obj)"
proof
  have "\<not> rx_test email_pattern []"
    by (simp add: email_pattern_def Many1_def)
  with assms(4) have "trim e \<noteq> []" by auto
  with assms show "validate (collect es) = []"
    by (auto simp: validate_def name_fails_def email_fails_def phone_fails_def
        message_fails_def falsy_def collect_lookup)
next
  show "\<forall>obj x. validate (obj(js ''instagram'' := x)) = validate obj"
    by (simp add: validate_def name_fails_def email_fails_def phone_fails_def
        message_fails_def)
qed

theorem validate_accepts_witness:
  "submitted scenario_a (js ''name'') = Some (js ''Ana'') \<and> trim (js ''Ana'') \<noteq> []
   \<and> submitted scenario_a (js ''email'') = Some (js ''ana@mail.com'')
   \<and> rx_test email_pattern (trim (js ''ana@mail.com''))
   \<and> submitted scenario_a (js ''phone'') = Some (js ''08123456'')
   \<and> 6 \<le> length (trim (js ''08123456''))
   \<and> submitted scenario_a (js ''message'') = Some (js ''Hello, I am interested in the course.'')
   \<and> 10 \<le> length (trim (js ''Hello, I am interested in the course.''))
   \<and> validate (collect scenario_a) = []"
proof -
  have n: "submitted scenario_a (js ''name'') = Some (js ''Ana'')"
    and e: "submitted scenario_a (js ''email'') = Some (js ''ana@mail.com'')"
    and p: "submitted scenario_a (js ''phone'') = Some (js ''08123456'')"
    and m: "submitted scenario_a (js ''message'') = Some (js ''Hello, I am interested in the course.'')"
    by (simp_all add: submitted_def scenario_a_def)
  have n': "trim (js ''Ana'') \<noteq> []" by code_simp
  have e': "rx_test email_pattern (trim (js ''ana@mail.com''))" by code_simp
  have p': "6 \<le> length (trim (js ''08123456''))" by code_simp
  have m': "10 \<le> length (trim (js ''Hello, I am interested in the course.''))" by code_simp
  from validate_accepts [OF n n' e e' p p' m m'] n n' e e' p p' m m'
  show ?thesis by simp
qed

text \<open>
  Claim C6, as the script has it. When the form submits no name, or a name that is empty
  after trimming, the error list contains the message of the name check, which the
  script words \<open>Nama wajib diisi.\<close>, whatever the other fields are.
\<close>

theorem name_required:
  assumes "case submitted es (js ''name'') of None \<Rightarrow> True | Some v \<Rightarrow> trim v = []"
  shows "msg_name \<in> set (validate (collect es))"
  using assms
  by (auto simp: validate_def name_fails_def falsy_def collect_lookup Let_def
      split: option.splits)

theorem name_required_witness:
  "(case submitted scenario_b (js ''name'') of None \<Rightarrow> True | Some v \<Rightarrow> trim v = [])
   \<and> msg_name \<in> set (validate (collect scenario_b))"
proof -
  have h: "case submitted scenario_b (js ''name'') of None \<Rightarrow> True | Some v \<Rightarrow> trim v = []"
    by (simp add: submitted_def scenario_b_def trim_def js_def)
  from name_required [OF h] h show ?thesis by simp
qed

text \<open>
  The wording \<open>Name is required\<close> is not what the script emits: on a submission with an
  empty name that string is not in the error list.
\<close>

theorem name_required_counterexample:
  "(case submitted scenario_b (js ''name'') of None \<Rightarrow> True | Some v \<Rightarrow> trim v = [])
   \<and> js ''Name is required'' \<notin> set (validate (collect scenario_b))"
proof -
  have "validate (collect scenario_b) = [msg_name, msg_email, msg_phone, msg_message]"
    by code_simp
  then show ?thesis
    by (simp add: submitted_def scenario_b_def trim_def msg_name_def msg_email_def
        msg_phone_def msg_message_def) (simp add: js_def)
qed

lemma distinct_check_order: "distinct check_order"
  by (simp add: check_order_def msg_name_def msg_email_def msg_phone_def msg_message_def)

text \<open>
  Claim C7. The error list is a subsequence of the four messages in the order name, email,
  phone, message, the four messages are different, and whenever two checks both fail the
  message of the earlier check precedes that of the later one.
\<close>

theorem validate_order:
  "subseq (validate obj) check_order
   \<and> distinct check_order
   \<and> (name_fails obj \<and> email_fails obj \<longrightarrow> precedes msg_name msg_email (validate obj))
   \<and> (name_fails obj \<and> phone_fails obj \<longrightarrow> precedes msg_name msg_phone (validate obj))
   \<and> (name_fails obj \<and> message_fails obj \<longrightarrow> precedes msg_name msg_message (validate obj))
   \<and> (email_fails obj \<and> phone_fails obj \<longrightarrow> precedes msg_email msg_phone (validate obj))
   \<and> (email_fails obj \<and> message_fails obj \<longrightarrow> precedes msg_email msg_message (validate obj))
   \<and> (phone_fails obj \<and> message_fails obj \<longrightarrow> precedes msg_phone msg_message (validate obj))"
proof -
  have d: "distinct check_order" by (rule distinct_check_order)
  then have ne: "msg_name \<noteq> msg_email" "msg_name \<noteq> msg_phone" "msg_name \<noteq> msg_message"
    "msg_email \<noteq> msg_phone" "msg_email \<noteq> msg_message" "msg_phone \<noteq> msg_message"
    by (auto simp: check_order_def)
  have s: "subseq (validate obj) check_order"
    by (simp add: validate_def check_order_def)
  from ne have p: "(name_fails obj \<and> email_fails obj \<longrightarrow> precedes msg_name msg_email (validate obj))
   \<and> (name_fails obj \<and> phone_fails obj \<longrightarrow> precedes msg_name msg_phone (validate obj))
   \<and> (name_fails obj \<and> message_fails obj \<longrightarrow> precedes msg_name msg_message (validate obj))
   \<and> (email_fails obj \<and> phone_fails obj \<longrightarrow> precedes msg_email msg_phone (validate obj))
   \<and> (email_fails obj \<and> message_fails obj \<longrightarrow> precedes msg_email msg_message (validate obj))
   \<and> (phone_fails obj \<and> message_fails obj \<longrightarrow> precedes msg_phone msg_message (validate obj))"
    by (auto simp: validate_def precedes_def Let_def)
  from s d p show ?thesis by blast
qed

theorem validate_order_witness:
  "name_fails (collect scenario_b) \<and> email_fails (collect scenario_b)
   \<and> phone_fails (collect scenario_b) \<and> message_fails (collect scenario_b)
   \<and> precedes msg_name msg_email (validate (collect scenario_b))
   \<and> precedes msg_name msg_phone (validate (collect scenario_b))
   \<and> precedes msg_name msg_message (validate (collect scenario_b))
   \<and> precedes msg_email msg_phone (validate (collect scenario_b))
   \<and> precedes msg_email msg_message (validate (collect scenario_b))
   \<and> precedes msg_phone msg_message (validate (collect scenario_b))"
proof -
  have f: "name_fails (collect scenario_b)" "email_fails (collect scenario_b)"
    "phone_fails (collect scenario_b)" "message_fails (collect scenario_b)"
    by code_simp+
  from validate_order [of "collect scenario_b"] f show ?thesis by blast
qed

section \<open>The field normalizer\<close>

lemma name_for_nonempty: "name_for i \<noteq> []"
proof (cases "array_at names i")
  case None
  then show ?thesis by (simp add: name_for_def falsy_def js_def)
next
  case (Some n)
  then show ?thesis by (simp add: name_for_def falsy_def js_def)
qed

lemma name_input_named: "el_name (name_input i inp) \<noteq> []"
  by (simp add: name_input_def name_for_nonempty)

lemma name_input_again: "name_input j (name_input i inp) = name_input i inp"
  using name_input_named[of i inp] by (simp add: name_input_def[of j])

lemma normalize_from_again: "normalize_from j (normalize_from i inps) = normalize_from i inps"
  by (induction inps arbitrary: i j) (simp_all add: name_input_again)

lemma normalize_from_length: "length (normalize_from i inps) = length inps"
  by (induction inps arbitrary: i) simp_all

lemma normalize_from_nth:
  "k < length inps \<Longrightarrow> normalize_from i inps ! k = name_input (i + k) (inps ! k)"
proof (induction inps arbitrary: i k)
  case Nil
  then show ?case by simp
next
  case (Cons inp inps)
  then show ?case by (cases k) simp_all
qed

text \<open>
  Claim C8. Running the normalizer on its own result changes nothing, so the names after
  two runs are the names after one; it keeps the number of elements, and an element that
  already has a name is left as it is.
\<close>

theorem normalize_idempotent:
  "normalize (normalize inps) = normalize inps
   \<and> map el_name (normalize (normalize inps)) = map el_name (normalize inps)
   \<and> length (normalize inps) = length inps
   \<and> (\<forall>k < length inps. el_name (inps ! k) \<noteq> [] \<longrightarrow> normalize inps ! k = inps ! k)"
  by (simp add: normalize_def normalize_from_again normalize_from_length normalize_from_nth
      name_input_def)

theorem normalize_idempotent_witness:
  "(1::nat) < length mostly_unnamed \<and> el_name (mostly_unnamed ! 1) \<noteq> []
   \<and> normalize mostly_unnamed ! 1 = mostly_unnamed ! 1
   \<and> map el_name (normalize mostly_unnamed)
       = [js ''name'', js ''mail'', js ''phone'', js ''instagram'', js ''message'', js ''field5'']
   \<and> normalize (normalize mostly_unnamed) = normalize mostly_unnamed"
proof -
  have l: "(1::nat) < length mostly_unnamed" by (simp add: mostly_unnamed_def)
  have n: "el_name (mostly_unnamed ! 1) \<noteq> []" by (simp add: mostly_unnamed_def js_def)
  have m: "map el_name (normalize mostly_unnamed)
       = [js ''name'', js ''mail'', js ''phone'', js ''instagram'', js ''message'', js ''field5'']"
    by code_simp
  from normalize_idempotent [of mostly_unnamed] l n m show ?thesis by blast
qed

section \<open>The store\<close>

lemma stored_records_cases:
  "stored_records st = Some xs \<longleftrightarrow>
     (xs = [] \<and> (st storage_key = None \<or> st storage_key = Some Blank))
     \<or> st storage_key = Some (Encoded (JArr xs))"
  by (auto simp: stored_records_def or_empty_array_def
      split: option.splits stored_text.splits json.splits)

lemma stored_records_empty: "stored_records Map.empty = Some []"
  by (simp add: stored_records_def or_empty_array_def)

lemma stored_records_written [simp]:
  "stored_records (st(storage_key \<mapsto> Encoded (JArr xs))) = Some xs"
  by (simp add: stored_records_def or_empty_array_def)

lemma try_save_readable:
  "stored_records st = Some xs \<Longrightarrow> storage_works env \<Longrightarrow>
   try_save env obj st
     = Inr (st(storage_key \<mapsto> Encoded (JArr (xs @ [to_json (new_entry env obj)]))))"
  by (auto simp: stored_records_def try_save_def load_def get_item_def json_parse_def
      push_def set_item_def json_stringify_def storage_works_def
      split: stored_text.splits json.splits)

lemma try_save_unreadable:
  "stored_records st = None \<Longrightarrow> \<exists>err. try_save env obj st = Inl err"
  by (auto simp: stored_records_def try_save_def load_def get_item_def json_parse_def
      push_def set_item_def json_stringify_def or_empty_array_def
      split: stored_text.splits json.splits option.splits)

lemma try_save_failing:
  "\<not> storage_works env \<Longrightarrow> \<exists>err. try_save env obj st = Inl err"
  by (auto simp: try_save_def load_def get_item_def json_parse_def
      push_def set_item_def json_stringify_def storage_works_def
      split: stored_text.splits json.splits sum.splits)

lemma save_readable:
  "stored_records st = Some xs \<Longrightarrow> storage_works env \<Longrightarrow>
   save env obj st
     = Inr (st(storage_key \<mapsto> Encoded (JArr (xs @ [to_json (new_entry env obj)]))))"
  by (simp add: save_def try_save_readable)

lemma save_unreadable: "stored_records st = None \<Longrightarrow> save env obj st = Inr st"
  using try_save_unreadable [of st env obj] by (auto simp: save_def)

lemma save_failing: "\<not> storage_works env \<Longrightarrow> save env obj st = Inr st"
  using try_save_failing [of env obj st] by (auto simp: save_def)

lemma save_total: "\<exists>st'. save env obj st = Inr st'"
  by (simp add: save_def split: sum.splits)

lemma save_all_readable:
  "stored_records st = Some xs \<Longrightarrow>
   \<exists>st'. save_all steps st = Inr st' \<and> stored_records st' = Some (xs @ appended steps)"
proof (induction steps arbitrary: st xs)
  case Nil
  then show ?case by (simp add: appended_def)
next
  case (Cons step steps)
  obtain env obj where step: "step = (env, obj)" by (cases step)
  show ?case
  proof (cases "storage_works env")
    case True
    let ?st = "st(storage_key \<mapsto> Encoded (JArr (xs @ [to_json (new_entry env obj)])))"
    have s: "save env obj st = Inr ?st" using Cons.prems True by (rule save_readable)
    have "stored_records ?st = Some (xs @ [to_json (new_entry env obj)])" by simp
    from Cons.IH [OF this] obtain st' where
      "save_all steps ?st = Inr st'"
      "stored_records st' = Some ((xs @ [to_json (new_entry env obj)]) @ appended steps)"
      by blast
    with s True show ?thesis by (simp add: step appended_def)
  next
    case False
    then have "save env obj st = Inr st" by (rule save_failing)
    moreover from Cons.IH [OF Cons.prems] obtain st' where
      "save_all steps st = Inr st'" "stored_records st' = Some (xs @ appended steps)"
      by blast
    ultimately show ?thesis using False by (simp add: step appended_def)
  qed
qed

lemma new_entry_fresh:
  "obj (js ''submittedAt'') = None \<Longrightarrow>
   new_entry env obj = obj(js ''submittedAt'' \<mapsto> to_iso_string (now env))"
  by (auto simp: new_entry_def map_add_def fun_eq_iff split: option.splits)

lemma collect_scenario_a_stamp: "collect scenario_a (js ''submittedAt'') = None"
  by (simp add: collect_lookup submitted_def scenario_a_def)

text \<open>
  Claim C3, as the script has it. An append never raises. When no storage operation throws
  and the stored value is absent or the empty string, the store afterwards holds the
  sequence of the new record alone; when it holds an array, the record is added at its
  end. A stored text that \<open>JSON.parse\<close> rejects, a stored value that is not an array,
  and a storage operation that throws all leave the store as it was: the record is
  dropped.
\<close>

theorem save_contract:
  "(\<exists>st'. save env obj st = Inr st')
   \<and> (storage_works env \<and> (st storage_key = None \<or> st storage_key = Some Blank) \<longrightarrow>
        save env obj st
          = Inr (st(storage_key \<mapsto> Encoded (JArr [to_json (new_entry env obj)]))))
   \<and> (storage_works env \<and> st storage_key = Some (Encoded (JArr xs)) \<longrightarrow>
        save env obj st
          = Inr (st(storage_key \<mapsto> Encoded (JArr (xs @ [to_json (new_entry env obj)])))))
   \<and> (st storage_key = Some Garbage \<longrightarrow> save env obj st = Inr st)
   \<and> (st storage_key = Some (Encoded v) \<and> (\<forall>ys. v \<noteq> JArr ys) \<longrightarrow> save env obj st = Inr st)
   \<and> (\<not> storage_works env \<longrightarrow> save env obj st = Inr st)"
proof -
  have a: "\<exists>st'. save env obj st = Inr st'" by (rule save_total)
  have b: "save env obj st
          = Inr (st(storage_key \<mapsto> Encoded (JArr [to_json (new_entry env obj)])))"
    if "storage_works env" "st storage_key = None \<or> st storage_key = Some Blank"
  proof -
    from that(2) have "stored_records st = Some []" by (simp add: stored_records_cases)
    from save_readable [OF this that(1)] show ?thesis by simp
  qed
  have c: "save env obj st
          = Inr (st(storage_key \<mapsto> Encoded (JArr (xs @ [to_json (new_entry env obj)]))))"
    if "storage_works env" "st storage_key = Some (Encoded (JArr xs))"
  proof -
    from that(2) have "stored_records st = Some xs" by (simp add: stored_records_cases)
    from save_readable [OF this that(1)] show ?thesis .
  qed
  have d: "save env obj st = Inr st" if "st storage_key = Some Garbage"
    using that by (intro save_unreadable) (simp add: stored_records_def or_empty_array_def)
  have e: "save env obj st = Inr st" if "st storage_key = Some (Encoded v)" "\<forall>ys. v \<noteq> JArr ys"
    using that
    by (intro save_unreadable) (auto simp: stored_records_def or_empty_array_def split: json.splits)
  have f: "save env obj st = Inr st" if "\<not> storage_works env"
    using that by (rule save_failing)
  from a b c d e f show ?thesis by blast
qed

theorem save_contract_witness:
  "storage_works env_ok \<and> \<not> storage_works env_full
   \<and> save env_ok (collect scenario_a) Map.empty
       = Inr [storage_key \<mapsto> Encoded (JArr [to_json (new_entry env_ok (collect scenario_a))])]
   \<and> save env_ok (collect scenario_a) [storage_key \<mapsto> Encoded (JArr [JNull])]
       = Inr [storage_key \<mapsto>
               Encoded (JArr [JNull, to_json (new_entry env_ok (collect scenario_a))])]
   \<and> save env_ok (collect scenario_a) [storage_key \<mapsto> Garbage] = Inr [storage_key \<mapsto> Garbage]
   \<and> save env_ok (collect scenario_a) [storage_key \<mapsto> Encoded JNull]
       = Inr [storage_key \<mapsto> Encoded JNull]
   \<and> save env_full (collect scenario_a) Map.empty = Inr Map.empty"
proof -
  have w: "storage_works env_ok" "\<not> storage_works env_full"
    by (simp_all add: storage_works_def env_ok_def env_full_def)
  from w
    save_contract [of env_ok "collect scenario_a" Map.empty]
    save_contract [of env_ok "collect scenario_a" "[storage_key \<mapsto> Encoded (JArr [JNull])]" "[JNull]"]
    save_contract [of env_ok "collect scenario_a" "[storage_key \<mapsto> Garbage]"]
    save_contract [of env_ok "collect scenario_a" "[storage_key \<mapsto> Encoded JNull]" _ JNull]
    save_contract [of env_full "collect scenario_a" Map.empty]
  show ?thesis by simp
qed

text \<open>
  A corrupt stored value is not taken for an empty sequence: after the append the store
  still holds it, and not the sequence of the new record.
\<close>

theorem save_contract_counterexample:
  "save env_ok (collect scenario_a) [storage_key \<mapsto> Garbage] = Inr [storage_key \<mapsto> Garbage]
   \<and> save env_ok (collect scenario_a) [storage_key \<mapsto> Garbage]
       \<noteq> Inr [storage_key \<mapsto> Encoded (JArr [to_json (new_entry env_ok (collect scenario_a))])]
   \<and> stored_records [storage_key \<mapsto> Garbage] = None"
proof -
  have n: "stored_records [storage_key \<mapsto> Garbage] = None"
    by (simp add: stored_records_def or_empty_array_def)
  then have s: "save env_ok (collect scenario_a) [storage_key \<mapsto> Garbage]
      = Inr [storage_key \<mapsto> Garbage]"
    by (rule save_unreadable)
  have "[storage_key \<mapsto> Garbage]
      \<noteq> [storage_key \<mapsto> Encoded (JArr [to_json (new_entry env_ok (collect scenario_a))])]"
  proof
    assume "[storage_key \<mapsto> Garbage]
      = [storage_key \<mapsto> Encoded (JArr [to_json (new_entry env_ok (collect scenario_a))])]"
    then have "[storage_key \<mapsto> Garbage] storage_key
      = [storage_key \<mapsto> Encoded (JArr [to_json (new_entry env_ok (collect scenario_a))])] storage_key"
      by (rule arg_cong)
    then show False by simp
  qed
  with s n show ?thesis by simp
qed

section \<open>The examples, evaluated\<close>

lemma scenario_a_valid: "validate (collect scenario_a) = []"
  by code_simp

lemma scenario_b_errors:
  "validate (collect scenario_b) = [msg_name, msg_email, msg_phone, msg_message]"
  by code_simp

lemma validate_extra_field:
  assumes "k \<noteq> js ''name''" "k \<noteq> js ''email''" "k \<noteq> js ''phone''" "k \<noteq> js ''message''"
  shows "validate (collect (es @ [(k, v)])) = validate (collect es)"
  using assms
  by (simp add: validate_def name_fails_def email_fails_def phone_fails_def message_fails_def
      collect_lookup submitted_def)

lemma own_stamp_valid: "validate (collect own_stamp) = []"
  by (simp add: own_stamp_def validate_extra_field scenario_a_valid)

lemma future_stamp_valid: "validate (collect future_stamp) = []"
  by (simp add: future_stamp_def validate_extra_field scenario_a_valid)

lemma proto_field_valid: "validate (collect proto_field) = []"
  by (simp add: proto_field_def validate_extra_field scenario_a_valid)

lemma own_stamp_value: "collect own_stamp (js ''submittedAt'') = Some (js ''x'')"
  by (simp add: collect_lookup submitted_def own_stamp_def) (simp add: trim_def js_def is_ws_def)

lemma future_stamp_value:
  "collect future_stamp (js ''submittedAt'') = Some (js ''2999-01-01T00:00:00.000Z'')"
  by (simp add: collect_lookup submitted_def future_stamp_def) (simp add: trim_def js_def is_ws_def)

lemma iso_epoch: "to_iso_string 0 = js ''1970-01-01T00:00:00.000Z''"
  by code_simp

lemma iso_before_year_zero: "to_iso_string (- 62198755200000) = js ''-000001-01-01T00:00:00.000Z''"
  by code_simp

lemma iso_now_env_ok: "to_iso_string (now env_ok) = js ''2023-11-14T22:13:20.000Z''"
  by code_simp

lemma iso_future: "to_iso_string 32472144000000 = js ''2999-01-01T00:00:00.000Z''"
  by code_simp

lemma storage_works_examples:
  "storage_works env_ok" "storage_works env_later" "\<not> storage_works env_full"
  by (simp_all add: storage_works_def env_ok_def env_later_def env_full_def)

lemma iso_now_env_later: "to_iso_string (now env_later) = js ''2023-11-14T22:13:20.001Z''"
  by code_simp

lemma page_of_simps:
  "inputs (page_of es shown st) = filled es" "storage (page_of es shown st) = st"
  "toast (page_of es shown st) = new_toast" "sparkle_count (page_of es shown st) = 0"
  "form_named (page_of es shown st) = shown"
  by (simp_all add: page_of_def)

lemma filled_values:
  "map el_value (filled es) = map snd es" "map el_default (filled es) = map (\<lambda>x. []) es"
  "map el_name (filled es) = map fst es"
  by (simp_all add: filled_def split_def)

lemma scenario_a_values:
  "map snd scenario_a
     = [js ''Ana'', js ''ana@mail.com'', js ''08123456'', js '' @ana '',
        js ''Hello, I am interested in the course.'']"
  "map (\<lambda>x. [] :: jsstring) scenario_a = [[], [], [], [], []]"
  by (simp_all add: scenario_a_def)

lemma success_text:
  "msg_success = js ''Terima kasih! Pesanmu telah tersimpan. Tim kami akan menghubungi segera.''"
  by (simp add: msg_success_def)

lemma error_text:
  "js ''Gagal kirim: '' @ hd [msg_name, msg_email, msg_phone, msg_message]
     @ concat (map (\<lambda>m. js '' '' @ m) (tl [msg_name, msg_email, msg_phone, msg_message]))
   = js ''Gagal kirim: Nama wajib diisi. Email tidak valid. Nomor telepon tampak terlalu pendek. Pesan minimal 10 karakter.''"
  by (simp add: msg_name_def msg_email_def msg_phone_def msg_message_def js_def)

lemma unnamed_controls:
  "map (\<lambda>inp. (el_name inp, el_value inp)) (inputs unnamed_page)
     = scenario_a @ [(js ''field5'', js ''more'')]"
  by code_simp

lemma unnamed_names:
  "map el_name (inputs unnamed_page)
     = [js ''name'', js ''email'', js ''phone'', js ''instagram'', js ''message'', js ''field5'']"
  using unnamed_controls [THEN arg_cong, of "map fst"]
  by (simp add: scenario_a_def comp_def)

lemma with_field5_valid: "validate (collect (scenario_a @ [(js ''field5'', js ''more'')])) = []"
  by (simp add: validate_extra_field scenario_a_valid)

section \<open>Appending and reading back\<close>

lemma entry_lookup:
  "get_prop (to_json (new_entry env (collect es))) k =
     (if k \<noteq> js ''__proto__'' \<and> submitted es k \<noteq> None
      then map_option (\<lambda>v. JStr (trim v)) (submitted es k)
      else if k = js ''submittedAt'' then Some (JStr (to_iso_string (now env)))
      else None)"
  by (auto simp: get_prop_def to_json_def new_entry_def map_add_def collect_lookup
      split: option.splits)

lemma entry_stamp:
  "get_prop (to_json (new_entry env obj)) (js ''submittedAt'') =
     (case obj (js ''submittedAt'') of None \<Rightarrow> Some (JStr (to_iso_string (now env)))
      | Some v \<Rightarrow> Some (JStr v))"
  by (simp add: get_prop_def to_json_def new_entry_def map_add_def split: option.splits)

text \<open>
  Claim C2, as the script has it. Start from a store whose value under the key is absent,
  the empty string or the empty array, and append \<open>N\<close> records one by one, none of
  which has a \<open>submittedAt\<close> property of its own, while no storage operation throws.
  Reading the store then gives exactly \<open>N\<close> records in the order of the appends, and
  the \<open>i\<close>-th is the \<open>i\<close>-th given record with one more property, \<open>submittedAt\<close>,
  holding the time of its append as \<open>toISOString\<close> prints it. The store does not look
  at whether a record is valid.
\<close>

theorem append_round_trip:
  assumes "stored_records st = Some []"
    and "\<forall>(env, obj) \<in> set steps. storage_works env \<and> obj (js ''submittedAt'') = None"
  shows "\<exists>st' rs. save_all steps st = Inr st' \<and> stored_records st' = Some rs
    \<and> length rs = length steps
    \<and> (\<forall>i < length steps.
          rs ! i = to_json ((snd (steps ! i))(js ''submittedAt'' \<mapsto>
                     to_iso_string (now (fst (steps ! i))))))"
proof -
  from save_all_readable [OF assms(1), of steps] obtain st' where
    st': "save_all steps st = Inr st'" "stored_records st' = Some (appended steps)"
    by auto
  have all: "filter (\<lambda>(env, obj). storage_works env) steps = steps"
    using assms(2) by (auto simp: filter_id_conv)
  have len: "length (appended steps) = length steps"
    by (simp add: appended_def all)
  have "appended steps ! i = to_json ((snd (steps ! i))(js ''submittedAt'' \<mapsto>
                     to_iso_string (now (fst (steps ! i)))))" if "i < length steps" for i
  proof -
    obtain env obj where step: "steps ! i = (env, obj)" by (cases "steps ! i")
    with that assms(2) have "obj (js ''submittedAt'') = None"
      using nth_mem [of i steps] by fastforce
    then show ?thesis using that by (simp add: appended_def all step new_entry_fresh)
  qed
  with st' len show ?thesis by auto
qed

theorem append_round_trip_witness:
  "stored_records Map.empty = Some []
   \<and> storage_works env_ok \<and> storage_works env_later
   \<and> collect scenario_a (js ''submittedAt'') = None
   \<and> (\<exists>st' rs. save_all [(env_ok, collect scenario_a), (env_later, collect scenario_a)] Map.empty
           = Inr st'
         \<and> stored_records st' = Some rs \<and> length rs = 2
         \<and> rs ! 0 = to_json ((collect scenario_a)(js ''submittedAt'' \<mapsto>
                       to_iso_string 1700000000000))
         \<and> rs ! 1 = to_json ((collect scenario_a)(js ''submittedAt'' \<mapsto>
                       to_iso_string 1700000000001)))"
proof -
  let ?steps = "[(env_ok, collect scenario_a), (env_later, collect scenario_a)]"
  have h: "\<forall>(env, obj) \<in> set ?steps. storage_works env \<and> obj (js ''submittedAt'') = None"
    by (simp add: storage_works_examples collect_scenario_a_stamp)
  from append_round_trip [OF stored_records_empty h] obtain st' rs where
    r: "save_all ?steps Map.empty = Inr st'" "stored_records st' = Some rs"
      "length rs = length ?steps"
      "\<forall>i < length ?steps.
          rs ! i = to_json ((snd (?steps ! i))(js ''submittedAt'' \<mapsto>
                     to_iso_string (now (fst (?steps ! i)))))"
    by blast
  from r(4) have "rs ! 0 = to_json ((collect scenario_a)(js ''submittedAt'' \<mapsto>
                       to_iso_string 1700000000000))"
    by (simp add: env_ok_def)
  moreover from r(4) have "rs ! 1 = to_json ((collect scenario_a)(js ''submittedAt'' \<mapsto>
                       to_iso_string 1700000000001))"
    by (simp add: env_later_def)
  moreover from r(3) have "length rs = 2" by simp
  ultimately have "\<exists>st' rs. save_all ?steps Map.empty = Inr st'
         \<and> stored_records st' = Some rs \<and> length rs = 2
         \<and> rs ! 0 = to_json ((collect scenario_a)(js ''submittedAt'' \<mapsto>
                       to_iso_string 1700000000000))
         \<and> rs ! 1 = to_json ((collect scenario_a)(js ''submittedAt'' \<mapsto>
                       to_iso_string 1700000000001))"
    using r(1,2) by blast
  with stored_records_empty storage_works_examples(1,2) collect_scenario_a_stamp
  show ?thesis by - (intro conjI, assumption+)
qed

text \<open>
  A valid record that has a \<open>submittedAt\<close> property of its own is stored with that
  value: the stored record is not the given one with the assigned time stamp.
\<close>

theorem append_round_trip_counterexample:
  "validate (collect own_stamp) = []
   \<and> save_all [(env_ok, collect own_stamp)] Map.empty
       = Inr [storage_key \<mapsto> Encoded (JArr [to_json (new_entry env_ok (collect own_stamp))])]
   \<and> get_prop (to_json (new_entry env_ok (collect own_stamp))) (js ''submittedAt'')
       = Some (JStr (js ''x''))
   \<and> get_prop (to_json ((collect own_stamp)(js ''submittedAt'' \<mapsto> to_iso_string (now env_ok))))
         (js ''submittedAt'')
       = Some (JStr (js ''2023-11-14T22:13:20.000Z''))
   \<and> to_json (new_entry env_ok (collect own_stamp))
       \<noteq> to_json ((collect own_stamp)(js ''submittedAt'' \<mapsto> to_iso_string (now env_ok)))"
proof -
  let ?stored = "to_json (new_entry env_ok (collect own_stamp))"
  let ?claimed = "to_json ((collect own_stamp)(js ''submittedAt'' \<mapsto> to_iso_string (now env_ok)))"
  have s: "save_all [(env_ok, collect own_stamp)] Map.empty
       = Inr [storage_key \<mapsto> Encoded (JArr [?stored])]"
    using save_readable [OF stored_records_empty storage_works_examples(1), of "collect own_stamp"]
    by simp
  have a: "get_prop ?stored (js ''submittedAt'') = Some (JStr (js ''x''))"
    by (simp add: entry_stamp own_stamp_value)
  have b: "get_prop ?claimed (js ''submittedAt'') = Some (JStr (js ''2023-11-14T22:13:20.000Z''))"
    by (simp add: get_prop_def to_json_def iso_now_env_ok)
  have "?stored \<noteq> ?claimed"
  proof
    assume "?stored = ?claimed"
    then have "get_prop ?stored (js ''submittedAt'') = get_prop ?claimed (js ''submittedAt'')"
      by (rule arg_cong)
    then show False unfolding a b by simp
  qed
  with own_stamp_valid s a b show ?thesis by blast
qed

lemma appended_stamps:
  assumes "\<forall>(env, obj) \<in> set steps. obj (js ''submittedAt'') = None"
  shows "appended steps
    = map (\<lambda>(env, obj). to_json (obj(js ''submittedAt'' \<mapsto> to_iso_string (now env))))
        (filter (\<lambda>(env, obj). storage_works env) steps)"
  using assms by (auto simp: appended_def new_entry_fresh)

text \<open>
  Claim C9, as the script has it. Let the clock readings of successive appends be
  non-decreasing, let no appended record have a \<open>submittedAt\<close> property of its own,
  and let the store be readable. Then the appends add, at the end of the stored sequence
  and in their order, one record for each append whose storage operations do not throw:
  the given record with \<open>submittedAt\<close> set to the \<open>toISOString\<close> text of the clock
  reading of that append. So the \<open>submittedAt\<close> values of the new records are the texts
  of those clock readings, and these readings are non-decreasing.
\<close>

theorem timestamps_monotone:
  assumes "stored_records st = Some xs"
    and "sorted (map (\<lambda>(env, obj). now env) steps)"
    and "\<forall>(env, obj) \<in> set steps. obj (js ''submittedAt'') = None"
  shows "\<exists>st' new. save_all steps st = Inr st' \<and> stored_records st' = Some (xs @ new)
    \<and> new = map (\<lambda>(env, obj). to_json (obj(js ''submittedAt'' \<mapsto> to_iso_string (now env))))
              (filter (\<lambda>(env, obj). storage_works env) steps)
    \<and> map (\<lambda>r. get_prop r (js ''submittedAt'')) new
        = map (\<lambda>(env, obj). Some (JStr (to_iso_string (now env))))
            (filter (\<lambda>(env, obj). storage_works env) steps)
    \<and> sorted (map (\<lambda>(env, obj). now env) (filter (\<lambda>(env, obj). storage_works env) steps))"
proof -
  let ?ok = "filter (\<lambda>(env, obj). storage_works env) steps"
  let ?new = "map (\<lambda>(env, obj). to_json (obj(js ''submittedAt'' \<mapsto> to_iso_string (now env)))) ?ok"
  from save_all_readable [OF assms(1), of steps] obtain st' where
    st': "save_all steps st = Inr st'" "stored_records st' = Some (xs @ appended steps)"
    by auto
  have a: "stored_records st' = Some (xs @ ?new)"
    using st'(2) appended_stamps [OF assms(3)] by simp
  have b: "map (\<lambda>r. get_prop r (js ''submittedAt'')) ?new
        = map (\<lambda>(env, obj). Some (JStr (to_iso_string (now env)))) ?ok"
    by (auto simp: get_prop_def to_json_def)
  have c: "sorted (map (\<lambda>(env, obj). now env) ?ok)"
    using assms(2) by (simp add: sorted_filter)
  from st'(1) a b c show ?thesis
    by - (rule exI [of _ st'], rule exI [of _ ?new], intro conjI, assumption, assumption,
        rule refl, assumption+)
qed

theorem timestamps_monotone_witness:
  "stored_records Map.empty = Some []
   \<and> sorted (map (\<lambda>(env, obj). now env)
        [(env_ok, collect scenario_a), (env_full, collect scenario_a),
         (env_later, collect scenario_a)])
   \<and> collect scenario_a (js ''submittedAt'') = None
   \<and> storage_works env_ok \<and> \<not> storage_works env_full \<and> storage_works env_later
   \<and> (\<exists>st' new.
         save_all [(env_ok, collect scenario_a), (env_full, collect scenario_a),
                   (env_later, collect scenario_a)] Map.empty
           = Inr st'
         \<and> stored_records st' = Some new
         \<and> new = [to_json ((collect scenario_a)(js ''submittedAt'' \<mapsto>
                      js ''2023-11-14T22:13:20.000Z'')),
                   to_json ((collect scenario_a)(js ''submittedAt'' \<mapsto>
                      js ''2023-11-14T22:13:20.001Z''))]
         \<and> map (\<lambda>r. get_prop r (js ''submittedAt'')) new
             = [Some (JStr (js ''2023-11-14T22:13:20.000Z'')),
                Some (JStr (js ''2023-11-14T22:13:20.001Z''))])
   \<and> sorted [now env_ok, now env_later]"
proof -
  let ?steps = "[(env_ok, collect scenario_a), (env_full, collect scenario_a),
                 (env_later, collect scenario_a)]"
  have s: "sorted (map (\<lambda>(env, obj). now env) ?steps)"
    by (simp add: env_ok_def env_later_def env_full_def)
  have h: "\<forall>(env, obj) \<in> set ?steps. obj (js ''submittedAt'') = None"
    by (simp add: collect_scenario_a_stamp)
  have f: "filter (\<lambda>(env, obj). storage_works env) ?steps
      = [(env_ok, collect scenario_a), (env_later, collect scenario_a)]"
    by (simp add: storage_works_examples)
  from timestamps_monotone [OF stored_records_empty s h] obtain st' new where
    r: "save_all ?steps Map.empty = Inr st' \<and> stored_records st' = Some ([] @ new)
      \<and> new = map (\<lambda>(env, obj). to_json (obj(js ''submittedAt'' \<mapsto> to_iso_string (now env))))
              (filter (\<lambda>(env, obj). storage_works env) ?steps)
      \<and> map (\<lambda>r. get_prop r (js ''submittedAt'')) new
        = map (\<lambda>(env, obj). Some (JStr (to_iso_string (now env))))
            (filter (\<lambda>(env, obj). storage_works env) ?steps)
      \<and> sorted (map (\<lambda>(env, obj). now env) (filter (\<lambda>(env, obj). storage_works env) ?steps))"
    by (elim exE) (rule that)
  note r1 = r [THEN conjunct1]
    and r2 = r [THEN conjunct2, THEN conjunct1, simplified]
    and r3 = r [THEN conjunct2, THEN conjunct2, THEN conjunct1, unfolded f]
    and r4 = r [THEN conjunct2, THEN conjunct2, THEN conjunct2, THEN conjunct1, unfolded f]
    and r5 = r [THEN conjunct2, THEN conjunct2, THEN conjunct2, THEN conjunct2, unfolded f]
  from r3 have n: "new = [to_json ((collect scenario_a)(js ''submittedAt'' \<mapsto>
                      js ''2023-11-14T22:13:20.000Z'')),
                   to_json ((collect scenario_a)(js ''submittedAt'' \<mapsto>
                      js ''2023-11-14T22:13:20.001Z''))]"
    by (simp add: iso_now_env_ok iso_now_env_later)
  from r4 have m: "map (\<lambda>r. get_prop r (js ''submittedAt'')) new
             = [Some (JStr (js ''2023-11-14T22:13:20.000Z'')),
                Some (JStr (js ''2023-11-14T22:13:20.001Z''))]"
    by (simp add: iso_now_env_ok iso_now_env_later)
  from r5 have o: "sorted [now env_ok, now env_later]" by simp
  from r1 r2 n m
  have e: "\<exists>st' new. save_all ?steps Map.empty = Inr st'
         \<and> stored_records st' = Some new
         \<and> new = [to_json ((collect scenario_a)(js ''submittedAt'' \<mapsto>
                      js ''2023-11-14T22:13:20.000Z'')),
                   to_json ((collect scenario_a)(js ''submittedAt'' \<mapsto>
                      js ''2023-11-14T22:13:20.001Z''))]
         \<and> map (\<lambda>r. get_prop r (js ''submittedAt'')) new
             = [Some (JStr (js ''2023-11-14T22:13:20.000Z'')),
                Some (JStr (js ''2023-11-14T22:13:20.001Z''))]"
    by - (rule exI [of _ st'], rule exI [of _ new], intro conjI, assumption+)
  from stored_records_empty s collect_scenario_a_stamp storage_works_examples(1)
    storage_works_examples(3) storage_works_examples(2) e o
  show ?thesis by - (intro conjI, assumption+)
qed

text \<open>
  With a record that brings its own \<open>submittedAt\<close> the stored time stamps can go down
  while the clock goes up: the first stored record is stamped in the year 2999, the second
  in 2023.
\<close>

theorem timestamps_monotone_counterexample:
  "now env_early \<le> now env_ok
   \<and> validate (collect future_stamp) = [] \<and> validate (collect scenario_a) = []
   \<and> save_all [(env_early, collect future_stamp), (env_ok, collect scenario_a)] Map.empty
       = Inr [storage_key \<mapsto> Encoded (JArr
               [to_json (new_entry env_early (collect future_stamp)),
                to_json (new_entry env_ok (collect scenario_a))])]
   \<and> get_prop (to_json (new_entry env_early (collect future_stamp))) (js ''submittedAt'')
       = Some (JStr (js ''2999-01-01T00:00:00.000Z''))
   \<and> get_prop (to_json (new_entry env_ok (collect scenario_a))) (js ''submittedAt'')
       = Some (JStr (js ''2023-11-14T22:13:20.000Z''))
   \<and> to_iso_string 32472144000000 = js ''2999-01-01T00:00:00.000Z''
   \<and> to_iso_string (now env_ok) = js ''2023-11-14T22:13:20.000Z''
   \<and> now env_ok < 32472144000000
   \<and> js_less (js ''2023-11-14T22:13:20.000Z'') (js ''2999-01-01T00:00:00.000Z'')"
proof -
  let ?r1 = "to_json (new_entry env_early (collect future_stamp))"
  let ?r2 = "to_json (new_entry env_ok (collect scenario_a))"
  have w: "storage_works env_early" by (simp add: storage_works_def env_early_def)
  have s1: "save env_early (collect future_stamp) Map.empty
      = Inr [storage_key \<mapsto> Encoded (JArr [?r1])]"
    using save_readable [OF stored_records_empty w, of "collect future_stamp"] by simp
  have "stored_records [storage_key \<mapsto> Encoded (JArr [?r1])] = Some [?r1]"
    by simp
  from save_readable [OF this storage_works_examples(1), of "collect scenario_a"]
  have s2: "save env_ok (collect scenario_a) [storage_key \<mapsto> Encoded (JArr [?r1])]
      = Inr [storage_key \<mapsto> Encoded (JArr [?r1, ?r2])]"
    by simp
  have s: "save_all [(env_early, collect future_stamp), (env_ok, collect scenario_a)] Map.empty
       = Inr [storage_key \<mapsto> Encoded (JArr [?r1, ?r2])]"
    by (simp add: s1 s2)
  have a: "get_prop ?r1 (js ''submittedAt'') = Some (JStr (js ''2999-01-01T00:00:00.000Z''))"
    by (simp add: entry_stamp future_stamp_value)
  have b: "get_prop ?r2 (js ''submittedAt'') = Some (JStr (js ''2023-11-14T22:13:20.000Z''))"
    by (simp add: entry_stamp collect_scenario_a_stamp iso_now_env_ok)
  have c: "now env_early \<le> now env_ok" "now env_ok < 32472144000000"
    by (simp_all add: env_ok_def env_early_def)
  have l: "js_less (js ''2023-11-14T22:13:20.000Z'') (js ''2999-01-01T00:00:00.000Z'')"
    by (simp add: js_less_def js_def)
  from c(1) future_stamp_valid scenario_a_valid s a b iso_future iso_now_env_ok c(2) l
  show ?thesis by - (intro conjI, assumption+)
qed

section \<open>The handler\<close>

lemma collect_entries_strings:
  "collect_entries obj (strings es) = Inr (collect_from obj es)"
  by (induction es arbitrary: obj) (auto simp: strings_def)

lemma collect_strings: "collect_entries Map.empty (strings es) = Inr (collect es)"
  by (simp add: collect_entries_strings collect_def)

lemma collect_entries_file:
  "collect_entries obj (strings es @ (k, FdFile) # rest) = Inl TypeError"
  by (induction es arbitrary: obj) (auto simp: strings_def)

lemma join_cons: "join sep (m # ms) = m @ concat (map (\<lambda>x. sep @ x) ms)"
  by (induction ms arbitrary: m) simp_all

lemma reset_values:
  "map el_value (reset inps) = map el_default inps"
  "map el_name (reset inps) = map el_name inps"
  "map el_default (reset inps) = map el_default inps"
  by (simp_all add: reset_def)

lemma submit_throws_early:
  "submit env (Inl err) e pg = (Some err, prevent_default e, pg)"
  "collect_entries Map.empty es = Inl err \<Longrightarrow>
     submit env (Inr es) e pg = (Some err, prevent_default e, pg)"
  by (simp_all add: submit_def)

lemma submit_rejects:
  assumes "collect_entries Map.empty es = Inr obj" and "validate obj \<noteq> []"
  shows "submit env (Inr es) e pg
    = (None, prevent_default e, pg\<lparr>toast := show_errors (validate obj) (toast pg)\<rparr>)"
  using assms by (simp add: submit_def)

lemma submit_accepts:
  assumes "collect_entries Map.empty es = Inr obj" and "validate obj = []"
    and "save env obj (storage pg) = Inr st"
  shows "submit env (Inr es) e pg
    = (if js ''reset'' \<in> set (form_named pg) then
         (Some TypeError, prevent_default e,
          pg\<lparr>storage := st, toast := show_success (toast pg)\<rparr>)
       else if js ''appendChild'' \<in> set (form_named pg) then
         (Some TypeError, prevent_default e,
          pg\<lparr>storage := st, toast := show_success (toast pg), inputs := reset (inputs pg)\<rparr>)
       else
         (None, prevent_default e,
          pg\<lparr>storage := st, toast := show_success (toast pg), inputs := reset (inputs pg),
             sparkle_count := Suc (sparkle_count pg)\<rparr>))"
  using assms by (simp add: submit_def form_reset_def sparkles_def)

lemma default_always_prevented: "default_prevented (fst (snd (submit env fdata e pg)))"
  by (simp add: submit_def prevent_default_def form_reset_def sparkles_def Let_def
      split: sum.splits)

lemma submit_stores:
  assumes "validate (collect es) = []"
    and "storage_works env" and "stored_records (storage pg) = Some xs"
  shows "\<exists>thrown pg'. submit env (Inr (strings es)) e pg = (thrown, prevent_default e, pg')
    \<and> storage pg' = (storage pg)(storage_key \<mapsto>
          Encoded (JArr (xs @ [to_json (new_entry env (collect es))])))"
proof -
  note s = save_readable [OF assms(3) assms(2), of "collect es"]
  note a = submit_accepts [OF collect_strings assms(1) s, of e]
  show ?thesis unfolding a by simp
qed

text \<open>
  Claim C4, as the script has it. Let the submission pass validation and the append fail,
  because a storage operation throws or because the stored value cannot be read as an
  array. Then the store, hence the stored sequence and its length, is as before, and the
  message area is shown with the success text in the success colours. When no element of
  the form is named \<open>reset\<close>, the form is reset: every control keeps its name and has
  the value a reset gives it. When moreover none is named \<open>appendChild\<close>, the handler
  returns normally.
\<close>

theorem storage_failure_is_silent:
  assumes "collect_entries Map.empty es = Inr obj" and "validate obj = []"
    and "\<not> storage_works env \<or> stored_records (storage pg) = None"
  shows "\<exists>thrown pg'. submit env (Inr es) e pg = (thrown, prevent_default e, pg')
    \<and> storage pg' = storage pg
    \<and> display (toast pg') = js ''block''
    \<and> background (toast pg') = js ''#f0fff4''
    \<and> color (toast pg') = js ''#0b6b2f''
    \<and> text_content (toast pg') = msg_success
    \<and> (js ''reset'' \<notin> set (form_named pg) \<longrightarrow>
          map el_value (inputs pg') = map el_default (inputs pg)
          \<and> map el_name (inputs pg') = map el_name (inputs pg)
          \<and> map el_default (inputs pg') = map el_default (inputs pg))
    \<and> (js ''reset'' \<notin> set (form_named pg) \<and> js ''appendChild'' \<notin> set (form_named pg) \<longrightarrow>
          thrown = None)"
proof -
  from assms(3) have s: "save env obj (storage pg) = Inr (storage pg)"
    using save_failing save_unreadable by blast
  note a = submit_accepts [OF assms(1) assms(2) s, of e]
  show ?thesis
    unfolding a
    by (simp add: show_success_def reset_values)
qed

theorem storage_failure_is_silent_witness:
  "collect_entries Map.empty (strings scenario_a) = Inr (collect scenario_a)
   \<and> validate (collect scenario_a) = []
   \<and> \<not> storage_works env_full
   \<and> stored_records [storage_key \<mapsto> Garbage] = None
   \<and> map el_value (inputs (page_of scenario_a [] Map.empty))
       = [js ''Ana'', js ''ana@mail.com'', js ''08123456'', js '' @ana '',
          js ''Hello, I am interested in the course.'']
   \<and> (\<exists>pg'. submit env_full (Inr (strings scenario_a)) event0 (page_of scenario_a [] Map.empty)
           = (None, prevent_default event0, pg')
         \<and> storage pg' = Map.empty
         \<and> display (toast pg') = js ''block''
         \<and> text_content (toast pg')
             = js ''Terima kasih! Pesanmu telah tersimpan. Tim kami akan menghubungi segera.''
         \<and> map el_value (inputs pg') = [[], [], [], [], []])
   \<and> (\<exists>pg'. submit env_ok (Inr (strings scenario_a)) event0
             (page_of scenario_a [] [storage_key \<mapsto> Garbage])
           = (None, prevent_default event0, pg')
         \<and> storage pg' = [storage_key \<mapsto> Garbage]
         \<and> text_content (toast pg')
             = js ''Terima kasih! Pesanmu telah tersimpan. Tim kami akan menghubungi segera.''
         \<and> map el_value (inputs pg') = [[], [], [], [], []])"
proof -
  let ?p1 = "page_of scenario_a [] Map.empty"
  let ?p2 = "page_of scenario_a [] [storage_key \<mapsto> Garbage]"
  have c: "collect_entries Map.empty (strings scenario_a) = Inr (collect scenario_a)"
    by (rule collect_strings)
  have w: "\<not> storage_works env_full" by (rule storage_works_examples(3))
  have g: "stored_records [storage_key \<mapsto> Garbage] = None"
    by (simp add: stored_records_def or_empty_array_def)
  have g2: "stored_records (storage ?p2) = None"
    by (simp add: page_of_simps g)
  have v: "map el_value (inputs ?p1)
       = [js ''Ana'', js ''ana@mail.com'', js ''08123456'', js '' @ana '',
          js ''Hello, I am interested in the course.'']"
    by (simp add: page_of_simps filled_values scenario_a_values)
  have n: "js ''reset'' \<notin> set (form_named (page_of scenario_a [] st))"
    "js ''reset'' \<notin> set (form_named (page_of scenario_a [] st))
       \<and> js ''appendChild'' \<notin> set (form_named (page_of scenario_a [] st))" for st
    by (simp_all add: page_of_simps)
  from storage_failure_is_silent [OF c scenario_a_valid disjI1 [OF w], where pg = ?p1 and e = event0]
  obtain t1 pg1 where
    r: "submit env_full (Inr (strings scenario_a)) event0 ?p1 = (t1, prevent_default event0, pg1)
      \<and> storage pg1 = storage ?p1
      \<and> display (toast pg1) = js ''block''
      \<and> background (toast pg1) = js ''#f0fff4''
      \<and> color (toast pg1) = js ''#0b6b2f''
      \<and> text_content (toast pg1) = msg_success
      \<and> (js ''reset'' \<notin> set (form_named ?p1) \<longrightarrow>
            map el_value (inputs pg1) = map el_default (inputs ?p1)
            \<and> map el_name (inputs pg1) = map el_name (inputs ?p1)
            \<and> map el_default (inputs pg1) = map el_default (inputs ?p1))
      \<and> (js ''reset'' \<notin> set (form_named ?p1) \<and> js ''appendChild'' \<notin> set (form_named ?p1) \<longrightarrow>
            t1 = None)"
    by (elim exE) (rule that)
  note r7 = r [THEN conjunct2, THEN conjunct2, THEN conjunct2, THEN conjunct2, THEN conjunct2,
      THEN conjunct2, THEN conjunct1, THEN mp, OF n(1), THEN conjunct1]
    and r8 = r [THEN conjunct2, THEN conjunct2, THEN conjunct2, THEN conjunct2, THEN conjunct2,
      THEN conjunct2, THEN conjunct2, THEN mp, OF n(2)]
  from r r8 have a1: "submit env_full (Inr (strings scenario_a)) event0 ?p1
      = (None, prevent_default event0, pg1)" by simp
  from r have a2: "storage pg1 = Map.empty" by (simp add: page_of_simps)
  note a3 = r [THEN conjunct2, THEN conjunct2, THEN conjunct1]
  note a4 = r [THEN conjunct2, THEN conjunct2, THEN conjunct2, THEN conjunct2, THEN conjunct2,
      THEN conjunct1, unfolded success_text]
  from r7 have a5: "map el_value (inputs pg1) = [[], [], [], [], []]"
    by (simp add: page_of_simps filled_values scenario_a_values)
  from a1 a2 a3 a4 a5
  have e1: "\<exists>pg'. submit env_full (Inr (strings scenario_a)) event0 ?p1
           = (None, prevent_default event0, pg')
         \<and> storage pg' = Map.empty
         \<and> display (toast pg') = js ''block''
         \<and> text_content (toast pg')
             = js ''Terima kasih! Pesanmu telah tersimpan. Tim kami akan menghubungi segera.''
         \<and> map el_value (inputs pg') = [[], [], [], [], []]"
    by - (rule exI [of _ pg1], intro conjI, assumption+)
  from storage_failure_is_silent [OF c scenario_a_valid disjI2 [OF g2], where env = env_ok and e = event0]
  obtain t2 pg2 where
    q: "submit env_ok (Inr (strings scenario_a)) event0 ?p2 = (t2, prevent_default event0, pg2)
      \<and> storage pg2 = storage ?p2
      \<and> display (toast pg2) = js ''block''
      \<and> background (toast pg2) = js ''#f0fff4''
      \<and> color (toast pg2) = js ''#0b6b2f''
      \<and> text_content (toast pg2) = msg_success
      \<and> (js ''reset'' \<notin> set (form_named ?p2) \<longrightarrow>
            map el_value (inputs pg2) = map el_default (inputs ?p2)
            \<and> map el_name (inputs pg2) = map el_name (inputs ?p2)
            \<and> map el_default (inputs pg2) = map el_default (inputs ?p2))
      \<and> (js ''reset'' \<notin> set (form_named ?p2) \<and> js ''appendChild'' \<notin> set (form_named ?p2) \<longrightarrow>
            t2 = None)"
    by (elim exE) (rule that)
  note q7 = q [THEN conjunct2, THEN conjunct2, THEN conjunct2, THEN conjunct2, THEN conjunct2,
      THEN conjunct2, THEN conjunct1, THEN mp, OF n(1), THEN conjunct1]
    and q8 = q [THEN conjunct2, THEN conjunct2, THEN conjunct2, THEN conjunct2, THEN conjunct2,
      THEN conjunct2, THEN conjunct2, THEN mp, OF n(2)]
  from q q8 have b1: "submit env_ok (Inr (strings scenario_a)) event0 ?p2
      = (None, prevent_default event0, pg2)" by simp
  from q have b2: "storage pg2 = [storage_key \<mapsto> Garbage]" by (simp add: page_of_simps)
  note b4 = q [THEN conjunct2, THEN conjunct2, THEN conjunct2, THEN conjunct2, THEN conjunct2,
      THEN conjunct1, unfolded success_text]
  from q7 have b5: "map el_value (inputs pg2) = [[], [], [], [], []]"
    by (simp add: page_of_simps filled_values scenario_a_values)
  from b1 b2 b4 b5
  have e2: "\<exists>pg'. submit env_ok (Inr (strings scenario_a)) event0 ?p2
           = (None, prevent_default event0, pg')
         \<and> storage pg' = [storage_key \<mapsto> Garbage]
         \<and> text_content (toast pg')
             = js ''Terima kasih! Pesanmu telah tersimpan. Tim kami akan menghubungi segera.''
         \<and> map el_value (inputs pg') = [[], [], [], [], []]"
    by - (rule exI [of _ pg2], intro conjI, assumption+)
  from c scenario_a_valid w g v e1 e2 show ?thesis by - (intro conjI, assumption+)
qed

text \<open>
  With an element named \<open>reset\<close> in the form, \<open>form.reset\<close> is that element: the call
  throws after the success text is shown, and the controls keep what the user typed.
\<close>

theorem storage_failure_is_silent_counterexample:
  "collect_entries Map.empty (strings scenario_a) = Inr (collect scenario_a)
   \<and> validate (collect scenario_a) = []
   \<and> \<not> storage_works env_full
   \<and> submit env_full (Inr (strings scenario_a)) event0 (page_of scenario_a [js ''reset''] Map.empty)
       = (Some TypeError, prevent_default event0,
          (page_of scenario_a [js ''reset''] Map.empty)\<lparr>toast := show_success new_toast\<rparr>)
   \<and> map el_value
         (inputs ((page_of scenario_a [js ''reset''] Map.empty)\<lparr>toast := show_success new_toast\<rparr>))
       = [js ''Ana'', js ''ana@mail.com'', js ''08123456'', js '' @ana '',
          js ''Hello, I am interested in the course.'']
   \<and> map el_default
         (inputs ((page_of scenario_a [js ''reset''] Map.empty)\<lparr>toast := show_success new_toast\<rparr>))
       = [[], [], [], [], []]"
proof -
  let ?pg = "page_of scenario_a [js ''reset''] Map.empty"
  have c: "collect_entries Map.empty (strings scenario_a) = Inr (collect scenario_a)"
    by (rule collect_strings)
  have w: "\<not> storage_works env_full" by (rule storage_works_examples(3))
  have s: "save env_full (collect scenario_a) (storage ?pg) = Inr (storage ?pg)"
    using w by (rule save_failing)
  have r: "submit env_full (Inr (strings scenario_a)) event0 ?pg
       = (Some TypeError, prevent_default event0, ?pg\<lparr>toast := show_success new_toast\<rparr>)"
    unfolding submit_accepts [OF c scenario_a_valid s, of event0]
    by (simp add: page_of_def)
  have v: "map el_value (inputs (?pg\<lparr>toast := show_success new_toast\<rparr>))
       = [js ''Ana'', js ''ana@mail.com'', js ''08123456'', js '' @ana '',
          js ''Hello, I am interested in the course.'']"
    by (simp add: page_of_simps filled_values scenario_a_values)
  have d: "map el_default (inputs (?pg\<lparr>toast := show_success new_toast\<rparr>)) = [[], [], [], [], []]"
    by (simp add: page_of_simps filled_values scenario_a_values)
  from c scenario_a_valid w r v d show ?thesis by - (intro conjI, assumption+)
qed

text \<open>
  Claim C5. However the handler ends, the default action of the event is prevented. When
  the entry list is collected and validation fails, the handler returns normally; the
  message area is shown in the error colours with the prefix \<open>Gagal kirim: \<close> followed
  by the error messages, one space between two of them; the store, the controls with
  their values, and the rest of the page are as before. When an entry is a \<open>File\<close>, the
  handler ends with the \<open>TypeError\<close> before it validates, and has changed nothing but
  the event.
\<close>

theorem submit_rejected:
  "default_prevented (fst (snd (submit env fdata e pg)))
   \<and> (collect_entries Map.empty es = Inr obj \<and> validate obj \<noteq> [] \<longrightarrow>
        (\<exists>pg'. submit env (Inr es) e pg = (None, prevent_default e, pg')
           \<and> display (toast pg') = js ''block''
           \<and> background (toast pg') = js ''#fff6f6''
           \<and> color (toast pg') = js ''#8a1f1f''
           \<and> text_content (toast pg')
               = js ''Gagal kirim: '' @ hd (validate obj)
                   @ concat (map (\<lambda>m. js '' '' @ m) (tl (validate obj)))
           \<and> storage pg' = storage pg
           \<and> inputs pg' = inputs pg
           \<and> form_named pg' = form_named pg
           \<and> sparkle_count pg' = sparkle_count pg))
   \<and> (collect_entries Map.empty es = Inl err \<longrightarrow>
        submit env (Inr es) e pg = (Some err, prevent_default e, pg))"
proof (intro conjI impI)
  show "default_prevented (fst (snd (submit env fdata e pg)))"
    by (rule default_always_prevented)
next
  assume a: "collect_entries Map.empty es = Inr obj \<and> validate obj \<noteq> []"
  then obtain m ms where v: "validate obj = m # ms" by (cases "validate obj") auto
  let ?pg = "pg\<lparr>toast := show_errors (validate obj) (toast pg)\<rparr>"
  have s: "submit env (Inr es) e pg = (None, prevent_default e, ?pg)"
    using a by (simp add: submit_rejects)
  have t: "text_content (toast ?pg)
      = js ''Gagal kirim: '' @ hd (validate obj) @ concat (map (\<lambda>m. js '' '' @ m) (tl (validate obj)))"
    by (simp add: show_errors_def v join_cons)
  have d: "display (toast ?pg) = js ''block''" "background (toast ?pg) = js ''#fff6f6''"
    "color (toast ?pg) = js ''#8a1f1f''"
    by (simp_all add: show_errors_def)
  have f: "storage ?pg = storage pg" "inputs ?pg = inputs pg" "form_named ?pg = form_named pg"
    "sparkle_count ?pg = sparkle_count pg"
    by simp_all
  from s d t f
  show "\<exists>pg'. submit env (Inr es) e pg = (None, prevent_default e, pg')
           \<and> display (toast pg') = js ''block''
           \<and> background (toast pg') = js ''#fff6f6''
           \<and> color (toast pg') = js ''#8a1f1f''
           \<and> text_content (toast pg')
               = js ''Gagal kirim: '' @ hd (validate obj)
                   @ concat (map (\<lambda>m. js '' '' @ m) (tl (validate obj)))
           \<and> storage pg' = storage pg
           \<and> inputs pg' = inputs pg
           \<and> form_named pg' = form_named pg
           \<and> sparkle_count pg' = sparkle_count pg"
    by - (rule exI [of _ ?pg], intro conjI, assumption+)
next
  assume "collect_entries Map.empty es = Inl err"
  then show "submit env (Inr es) e pg = (Some err, prevent_default e, pg)"
    by (rule submit_throws_early(2))
qed

theorem submit_rejected_witness:
  "collect_entries Map.empty (strings scenario_b) = Inr (collect scenario_b)
   \<and> validate (collect scenario_b) = [msg_name, msg_email, msg_phone, msg_message]
   \<and> validate (collect scenario_b) \<noteq> []
   \<and> default_prevented
        (fst (snd (submit env_ok (Inr (strings scenario_b)) event0 (page_of scenario_b [] Map.empty))))
   \<and> (\<exists>pg'. submit env_ok (Inr (strings scenario_b)) event0 (page_of scenario_b [] Map.empty)
           = (None, prevent_default event0, pg')
         \<and> display (toast pg') = js ''block''
         \<and> text_content (toast pg')
             = js ''Gagal kirim: Nama wajib diisi. Email tidak valid. Nomor telepon tampak terlalu pendek. Pesan minimal 10 karakter.''
         \<and> storage pg' = Map.empty
         \<and> map el_value (inputs pg') = [js '''', js ''bad'', js ''1'', js ''short''])
   \<and> collect_entries Map.empty with_file = Inl TypeError
   \<and> submit env_ok (Inr with_file) event0 (page_of scenario_a [] Map.empty)
       = (Some TypeError, prevent_default event0, page_of scenario_a [] Map.empty)"
proof -
  let ?pg = "page_of scenario_b [] Map.empty"
  note t = submit_rejected [of env_ok "Inr (strings scenario_b)" event0 ?pg "strings scenario_b"
      "collect scenario_b"]
  have c: "collect_entries Map.empty (strings scenario_b) = Inr (collect scenario_b)"
    by (rule collect_strings)
  have n: "validate (collect scenario_b) \<noteq> []" by (simp add: scenario_b_errors)
  note d = t [THEN conjunct1]
  from t [THEN conjunct2, THEN conjunct1, THEN mp, OF conjI, OF c n] obtain pg' where
    r: "submit env_ok (Inr (strings scenario_b)) event0 ?pg = (None, prevent_default event0, pg')
       \<and> display (toast pg') = js ''block''
       \<and> background (toast pg') = js ''#fff6f6''
       \<and> color (toast pg') = js ''#8a1f1f''
       \<and> text_content (toast pg')
           = js ''Gagal kirim: '' @ hd (validate (collect scenario_b))
               @ concat (map (\<lambda>m. js '' '' @ m) (tl (validate (collect scenario_b))))
       \<and> storage pg' = storage ?pg
       \<and> inputs pg' = inputs ?pg
       \<and> form_named pg' = form_named ?pg
       \<and> sparkle_count pg' = sparkle_count ?pg"
    by (elim exE) (rule that)
  note r1 = r [THEN conjunct1] and r2 = r [THEN conjunct2, THEN conjunct1]
  note r5 = r [THEN conjunct2, THEN conjunct2, THEN conjunct2, THEN conjunct2, THEN conjunct1,
      unfolded scenario_b_errors error_text]
  from r have r6: "storage pg' = Map.empty" by (simp add: page_of_simps)
  from r have r7: "map el_value (inputs pg') = [js '''', js ''bad'', js ''1'', js ''short'']"
    by (simp add: page_of_simps filled_values scenario_b_def)
  from r1 r2 r5 r6 r7
  have e: "\<exists>pg'. submit env_ok (Inr (strings scenario_b)) event0 ?pg
           = (None, prevent_default event0, pg')
         \<and> display (toast pg') = js ''block''
         \<and> text_content (toast pg')
             = js ''Gagal kirim: Nama wajib diisi. Email tidak valid. Nomor telepon tampak terlalu pendek. Pesan minimal 10 karakter.''
         \<and> storage pg' = Map.empty
         \<and> map el_value (inputs pg') = [js '''', js ''bad'', js ''1'', js ''short'']"
    by - (rule exI [of _ pg'], intro conjI, assumption+)
  have f: "collect_entries Map.empty with_file = Inl TypeError"
    unfolding with_file_def by (rule collect_entries_file)
  note g = submit_rejected [of env_ok "Inr with_file" event0 "page_of scenario_a [] Map.empty"
      with_file _ TypeError, THEN conjunct2, THEN conjunct2, THEN mp, OF f]
  from c scenario_b_errors n d e f g show ?thesis by - (intro conjI, assumption+)
qed

text \<open>
  Claim C10, as the script has it. When the submission is accepted and the store works,
  the new record is the last of the stored sequence, also when the handler later ends
  with an exception. For every name other than \<open>__proto__\<close> under which the entry list
  of \<open>FormData\<close> has an entry, the record holds the trimmed value of the last such
  entry: \<open>instagram\<close> and generated names like \<open>field5\<close> as well as the validated
  fields, and an entry named \<open>submittedAt\<close> in place of the time stamp. Without such an
  entry \<open>submittedAt\<close> is the time of acceptance. The record holds nothing else: no
  property \<open>__proto__\<close>, and none for a control that \<open>FormData\<close> leaves out.
\<close>

theorem stored_record_fields:
  assumes "validate (collect es) = []"
    and "storage_works env" and "stored_records (storage pg) = Some xs"
  shows "\<exists>thrown pg' r. submit env (Inr (strings es)) e pg = (thrown, prevent_default e, pg')
    \<and> stored_records (storage pg') = Some (xs @ [r])
    \<and> (\<forall>k v. k \<noteq> js ''__proto__'' \<and> submitted es k = Some v \<longrightarrow>
          get_prop r k = Some (JStr (trim v)))
    \<and> (submitted es (js ''submittedAt'') = None \<longrightarrow>
          get_prop r (js ''submittedAt'') = Some (JStr (to_iso_string (now env))))
    \<and> (\<forall>k. k \<noteq> js ''submittedAt'' \<and> submitted es k = None \<longrightarrow> get_prop r k = None)
    \<and> get_prop r (js ''__proto__'') = None"
proof -
  let ?r = "to_json (new_entry env (collect es))"
  from submit_stores [OF assms, of e] obtain thrown pg' where
    s: "submit env (Inr (strings es)) e pg = (thrown, prevent_default e, pg')
      \<and> storage pg' = (storage pg)(storage_key \<mapsto> Encoded (JArr (xs @ [?r])))"
    by (elim exE) (rule that)
  note 1 = s [THEN conjunct1]
  have 2: "stored_records (storage pg') = Some (xs @ [?r])"
    unfolding s [THEN conjunct2] by simp
  have 3: "\<forall>k v. k \<noteq> js ''__proto__'' \<and> submitted es k = Some v \<longrightarrow>
          get_prop ?r k = Some (JStr (trim v))"
    by (simp add: entry_lookup)
  have 4: "submitted es (js ''submittedAt'') = None \<longrightarrow>
          get_prop ?r (js ''submittedAt'') = Some (JStr (to_iso_string (now env)))"
    by (simp add: entry_lookup)
  have 5: "\<forall>k. k \<noteq> js ''submittedAt'' \<and> submitted es k = None \<longrightarrow> get_prop ?r k = None"
    by (simp add: entry_lookup)
  have 6: "get_prop ?r (js ''__proto__'') = None"
    by (simp add: entry_lookup)
  from 1 2 3 4 5 6 show ?thesis
    by - (rule exI [of _ thrown], rule exI [of _ pg'], rule exI [of _ ?r], intro conjI,
        assumption+)
qed

theorem stored_record_fields_witness:
  "map (\<lambda>inp. (el_name inp, el_value inp)) (inputs unnamed_page)
     = scenario_a @ [(js ''field5'', js ''more'')]
   \<and> validate (collect (scenario_a @ [(js ''field5'', js ''more'')])) = []
   \<and> storage_works env_ok
   \<and> stored_records (storage unnamed_page) = Some []
   \<and> (\<exists>thrown pg' r.
         submit env_ok (Inr (strings (scenario_a @ [(js ''field5'', js ''more'')]))) event0
             unnamed_page
           = (thrown, prevent_default event0, pg')
         \<and> stored_records (storage pg') = Some [r]
         \<and> get_prop r (js ''name'') = Some (JStr (js ''Ana''))
         \<and> get_prop r (js ''instagram'') = Some (JStr (js ''@ana''))
         \<and> get_prop r (js ''field5'') = Some (JStr (js ''more''))
         \<and> get_prop r (js ''submittedAt'') = Some (JStr (js ''2023-11-14T22:13:20.000Z''))
         \<and> get_prop r (js ''other'') = None)
   \<and> validate (collect own_stamp) = []
   \<and> (\<exists>thrown pg' r.
         submit env_ok (Inr (strings own_stamp)) event0 (page_of own_stamp [] Map.empty)
           = (thrown, prevent_default event0, pg')
         \<and> stored_records (storage pg') = Some [r]
         \<and> get_prop r (js ''submittedAt'') = Some (JStr (js ''x'')))"
proof -
  let ?es = "scenario_a @ [(js ''field5'', js ''more'')]"
  have p: "js ''name'' \<noteq> js ''__proto__''" "js ''instagram'' \<noteq> js ''__proto__''"
    "js ''field5'' \<noteq> js ''__proto__''" "js ''submittedAt'' \<noteq> js ''__proto__''"
    "js ''other'' \<noteq> js ''submittedAt''"
    by simp_all
  have us: "stored_records (storage unnamed_page) = Some []"
    by (simp add: unnamed_page_def stored_records_empty)
  have ua: "submitted ?es (js ''name'') = Some (js ''Ana'')"
    and ub: "submitted ?es (js ''instagram'') = Some (js '' @ana '')"
    and uc: "submitted ?es (js ''field5'') = Some (js ''more'')"
    and ud: "submitted ?es (js ''submittedAt'') = None"
    and ue: "submitted ?es (js ''other'') = None"
    by (simp_all add: submitted_def scenario_a_def)
  have t: "trim (js ''Ana'') = js ''Ana''" "trim (js '' @ana '') = js ''@ana''"
    "trim (js ''more'') = js ''more''" "trim (js '' x '') = js ''x''"
    by (simp_all add: trim_def js_def is_ws_def)
  from stored_record_fields [OF with_field5_valid storage_works_examples(1) us, of event0]
  obtain t2 pg2 r2 where
    u: "submit env_ok (Inr (strings ?es)) event0 unnamed_page = (t2, prevent_default event0, pg2)
      \<and> stored_records (storage pg2) = Some ([] @ [r2])
      \<and> (\<forall>k v. k \<noteq> js ''__proto__'' \<and> submitted ?es k = Some v \<longrightarrow>
            get_prop r2 k = Some (JStr (trim v)))
      \<and> (submitted ?es (js ''submittedAt'') = None \<longrightarrow>
            get_prop r2 (js ''submittedAt'') = Some (JStr (to_iso_string (now env_ok))))
      \<and> (\<forall>k. k \<noteq> js ''submittedAt'' \<and> submitted ?es k = None \<longrightarrow> get_prop r2 k = None)
      \<and> get_prop r2 (js ''__proto__'') = None"
    by (elim exE) (rule that)
  note u1 = u [THEN conjunct1]
    and u2 = u [THEN conjunct2, THEN conjunct1, simplified]
    and u3 = u [THEN conjunct2, THEN conjunct2, THEN conjunct1]
    and u4 = u [THEN conjunct2, THEN conjunct2, THEN conjunct2, THEN conjunct1]
    and u5 = u [THEN conjunct2, THEN conjunct2, THEN conjunct2, THEN conjunct2, THEN conjunct1]
  note a = u3 [THEN spec, THEN spec, THEN mp, OF conjI, OF p(1) ua, unfolded t]
    and b = u3 [THEN spec, THEN spec, THEN mp, OF conjI, OF p(2) ub, unfolded t]
    and c = u3 [THEN spec, THEN spec, THEN mp, OF conjI, OF p(3) uc, unfolded t]
    and d = u4 [THEN mp, OF ud, unfolded iso_now_env_ok]
    and f = u5 [THEN spec, THEN mp, OF conjI, OF p(5) ue]
  from u1 u2 a b c d f
  have un: "\<exists>thrown pg' r.
         submit env_ok (Inr (strings ?es)) event0 unnamed_page
           = (thrown, prevent_default event0, pg')
         \<and> stored_records (storage pg') = Some [r]
         \<and> get_prop r (js ''name'') = Some (JStr (js ''Ana''))
         \<and> get_prop r (js ''instagram'') = Some (JStr (js ''@ana''))
         \<and> get_prop r (js ''field5'') = Some (JStr (js ''more''))
         \<and> get_prop r (js ''submittedAt'') = Some (JStr (js ''2023-11-14T22:13:20.000Z''))
         \<and> get_prop r (js ''other'') = None"
    by - (rule exI [of _ t2], rule exI [of _ pg2], rule exI [of _ r2], intro conjI, assumption+)
  let ?pg = "page_of own_stamp [] Map.empty"
  have s: "stored_records (storage ?pg) = Some []"
    by (simp add: page_of_simps stored_records_empty)
  have oa: "submitted own_stamp (js ''submittedAt'') = Some (js '' x '')"
    by (simp add: submitted_def own_stamp_def scenario_a_def)
  from stored_record_fields [OF own_stamp_valid storage_works_examples(1) s, of event0]
  obtain t1 pg1 r1 where
    r: "submit env_ok (Inr (strings own_stamp)) event0 ?pg = (t1, prevent_default event0, pg1)
      \<and> stored_records (storage pg1) = Some ([] @ [r1])
      \<and> (\<forall>k v. k \<noteq> js ''__proto__'' \<and> submitted own_stamp k = Some v \<longrightarrow>
            get_prop r1 k = Some (JStr (trim v)))
      \<and> (submitted own_stamp (js ''submittedAt'') = None \<longrightarrow>
            get_prop r1 (js ''submittedAt'') = Some (JStr (to_iso_string (now env_ok))))
      \<and> (\<forall>k. k \<noteq> js ''submittedAt'' \<and> submitted own_stamp k = None \<longrightarrow> get_prop r1 k = None)
      \<and> get_prop r1 (js ''__proto__'') = None"
    by (elim exE) (rule that)
  note r1 = r [THEN conjunct1]
    and r2 = r [THEN conjunct2, THEN conjunct1, simplified]
    and r3 = r [THEN conjunct2, THEN conjunct2, THEN conjunct1]
  note g = r3 [THEN spec, THEN spec, THEN mp, OF conjI, OF p(4) oa, unfolded t]
  from r1 r2 g
  have own: "\<exists>thrown pg' r.
         submit env_ok (Inr (strings own_stamp)) event0 ?pg = (thrown, prevent_default event0, pg')
         \<and> stored_records (storage pg') = Some [r]
         \<and> get_prop r (js ''submittedAt'') = Some (JStr (js ''x''))"
    by - (rule exI [of _ t1], rule exI [of _ pg1], rule exI [of _ r1], intro conjI, assumption+)
  from unnamed_controls with_field5_valid storage_works_examples(1) us un own_stamp_valid own
  show ?thesis by - (intro conjI, assumption+)
qed

text \<open>
  Not every field of the form is stored: an entry named \<open>__proto__\<close> creates no
  property, and a control that the normalizer has named \<open>field5\<close> but that
  \<open>FormData\<close> leaves out, as it does a disabled one, is not in the record.
\<close>

theorem stored_record_fields_counterexample:
  "validate (collect proto_field) = []
   \<and> submitted proto_field (js ''__proto__'') = Some (js ''x'')
   \<and> storage (snd (snd (submit env_ok (Inr (strings proto_field)) event0
                     (page_of proto_field [] Map.empty))))
       = [storage_key \<mapsto> Encoded (JArr [to_json (new_entry env_ok (collect proto_field))])]
   \<and> get_prop (to_json (new_entry env_ok (collect proto_field))) (js ''__proto__'') = None
   \<and> js ''field5'' \<in> set (map el_name (inputs unnamed_page))
   \<and> validate (collect scenario_a) = []
   \<and> storage (snd (snd (submit env_ok (Inr (strings scenario_a)) event0 unnamed_page)))
       = [storage_key \<mapsto> Encoded (JArr [to_json (new_entry env_ok (collect scenario_a))])]
   \<and> get_prop (to_json (new_entry env_ok (collect scenario_a))) (js ''field5'') = None"
proof -
  have a: "submitted proto_field (js ''__proto__'') = Some (js ''x'')"
    by (simp add: submitted_def proto_field_def)
  have s1: "stored_records (storage (page_of proto_field [] Map.empty)) = Some []"
    by (simp add: page_of_simps stored_records_empty)
  from submit_stores [OF proto_field_valid storage_works_examples(1) s1, of event0]
  have b: "storage (snd (snd (submit env_ok (Inr (strings proto_field)) event0
                     (page_of proto_field [] Map.empty))))
       = [storage_key \<mapsto> Encoded (JArr [to_json (new_entry env_ok (collect proto_field))])]"
    by (auto simp: page_of_simps)
  have c: "get_prop (to_json (new_entry env_ok (collect proto_field))) (js ''__proto__'') = None"
    by (simp add: entry_lookup)
  have d: "js ''field5'' \<in> set (map el_name (inputs unnamed_page))"
    by (simp add: unnamed_names)
  have s2: "stored_records (storage unnamed_page) = Some []"
    by (simp add: unnamed_page_def stored_records_empty)
  from submit_stores [OF scenario_a_valid storage_works_examples(1) s2, of event0]
  have e: "storage (snd (snd (submit env_ok (Inr (strings scenario_a)) event0 unnamed_page)))
       = [storage_key \<mapsto> Encoded (JArr [to_json (new_entry env_ok (collect scenario_a))])]"
    by (auto simp: unnamed_page_def)
  have f: "get_prop (to_json (new_entry env_ok (collect scenario_a))) (js ''field5'') = None"
    by (simp add: entry_lookup submitted_def scenario_a_def)
  from proto_field_valid a b c d scenario_a_valid e f show ?thesis
    by - (intro conjI, assumption+)
qed

end
